theory Spec2Isabelle
  imports Complex_Main
begin

unbundle bit_operations_syntax

section \<open>Data model\<close>

text \<open>
  The script \<^verbatim>\<open>scripts/fetch_strava.py\<close> moves JSON activity records through pandas
  data frames. A cell value is a JSON value, or a line geometry built by the script.
  \<open>Null\<close> stands for every missing value of Python and pandas (\<^verbatim>\<open>None\<close>, \<^verbatim>\<open>NaN\<close>,
  \<^verbatim>\<open>NaT\<close>); numbers are compared by value, floats are exact rationals.
\<close>

datatype val =
    Null
  | Bool bool
  | Num rat
  | Str string
  | Dict "(string \<times> val) list"
  | Arr "val list"
  | LineString "(rat \<times> rat) list"

text \<open>An activity as \<^verbatim>\<open>r.json()\<close> delivers it: a dict from field names to values.\<close>

type_synonym activity = "(string \<times> val) list"

text \<open>
  A data frame: the column labels in order, and the rows. A row maps a column label to
  its cell; a label that is no column of the frame reads as \<open>Null\<close>.
\<close>

type_synonym row = "string \<Rightarrow> val"

record frame =
  columns :: "string list"
  rows :: "row list"

text \<open>\<^verbatim>\<open>len(df)\<close> is the number of rows.\<close>

definition len :: "frame \<Rightarrow> nat" where
  "len df = length (rows df)"

text \<open>The exceptions the script can end with.\<close>

datatype error =
    RuntimeError string
  | AttributeError
  | TypeError
  | IndexError
  | KeyError

section \<open>pandas operations used by the merge\<close>

text \<open>
  The operations of the third-party packages pandas and geopandas that the script calls
  are modelled by what they are documented to do on the frames above.

  \<^verbatim>\<open>pd.concat([a, b], ignore_index=True)\<close>: the rows of \<open>a\<close> followed by the rows of
  \<open>b\<close>, over the union of the columns (a cell of a column the row's frame did not
  have is missing).
\<close>

definition concat_frames :: "frame \<Rightarrow> frame \<Rightarrow> frame" where
  "concat_frames a b =
     \<lparr>columns = columns a @ filter (\<lambda>c. c \<notin> set (columns a)) (columns b),
      rows = rows a @ rows b\<rparr>"

text \<open>
  \<^verbatim>\<open>drop_duplicates(subset=[k], keep="last")\<close> on the rows: a row stays exactly when no
  later row has the same value in column \<open>k\<close>.
\<close>

fun drop_duplicates_last :: "string \<Rightarrow> row list \<Rightarrow> row list" where
  "drop_duplicates_last k [] = []"
| "drop_duplicates_last k (r # rs) =
     (if list_ex (\<lambda>r'. r' k = r k) rs then drop_duplicates_last k rs
      else r # drop_duplicates_last k rs)"

definition drop_duplicates :: "string \<Rightarrow> frame \<Rightarrow> frame" where
  "drop_duplicates k df = df\<lparr>rows := drop_duplicates_last k (rows df)\<rparr>"

section \<open>The merge block of the main program\<close>

text \<open>
  \<^verbatim>\<open>
  if len(existing):
      if "id" in existing.columns:
          combined = pd.concat([existing, new_gdf], ignore_index=True)
          combined = combined.drop_duplicates(subset=["id"], keep="last")
          combined_gdf = gpd.GeoDataFrame(combined, geometry="geometry", crs="EPSG:4326")
      else:
          combined_gdf = new_gdf
  else:
      combined_gdf = new_gdf
  \<close>
\<close>

definition merge_block :: "frame \<Rightarrow> frame \<Rightarrow> frame" where
  "merge_block existing new_gdf =
     (if len existing \<noteq> 0 then
        (if ''id'' \<in> set (columns existing) then
           drop_duplicates ''id'' (concat_frames existing new_gdf)
         else new_gdf)
      else new_gdf)"

text \<open>The ids of a frame's records, in row order.\<close>

definition ids :: "frame \<Rightarrow> val list" where
  "ids df = map (\<lambda>r. r ''id'') (rows df)"

text \<open>The records of a frame that carry the id \<open>i\<close>.\<close>

definition with_id :: "val \<Rightarrow> frame \<Rightarrow> row list" where
  "with_id i df = filter (\<lambda>r. r ''id'' = i) (rows df)"


section \<open>Library functions taken as parameters\<close>

text \<open>
  A pandas \<^verbatim>\<open>Timestamp\<close>, as far as the script reads it: \<^verbatim>\<open>.timestamp()\<close> (seconds
  since the epoch), \<^verbatim>\<open>.year\<close>, \<^verbatim>\<open>.month\<close> and \<^verbatim>\<open>str(.date())\<close>.
\<close>

record Timestamp =
  timestamp :: rat
  year :: int
  month :: int
  date :: string

text \<open>
  Third-party functions whose code is no part of the repository are parameters of the
  model:
  \<^item> \<open>to_datetime\<close>: \<^verbatim>\<open>pd.to_datetime(_, errors="coerce", utc=True)\<close> on one entry;
    \<open>None\<close> is \<^verbatim>\<open>NaT\<close>, the result for an entry that does not parse;
  \<^item> \<open>astype_str_na\<close>: what \<^verbatim>\<open>Series.astype(str)\<close> makes of a missing entry. pandas
    before 3.0 turns every entry into a string, the missing date into \<^verbatim>\<open>"NaT"\<close>
    (\<open>Some ''NaT''\<close>); from pandas 3.0 on the entry stays missing (\<open>None\<close>). No file
    of the repository fixes the version;
  \<^item> \<open>json_dumps\<close>: \<^verbatim>\<open>json.dumps\<close>;
  \<^item> \<open>is_valid\<close>: shapely's validity test of a line with the given coordinates.
\<close>

record libs =
  to_datetime :: "val \<Rightarrow> Timestamp option"
  astype_str_na :: "string option"
  json_dumps :: "val \<Rightarrow> string"
  is_valid :: "(rat \<times> rat) list \<Rightarrow> bool"

section \<open>Settings\<close>

definition DATA_DIR :: string where
  "DATA_DIR = ''docs/data''"

definition GEOJSON_PATH :: string where
  "GEOJSON_PATH = DATA_DIR @ ''/'' @ ''activities.geojson''"

definition SHAPE_DIR :: string where
  "SHAPE_DIR = DATA_DIR @ ''/'' @ ''shapefile''"

definition SHAPE_BASENAME :: string where
  "SHAPE_BASENAME = ''activities''"

definition PER_PAGE :: nat where
  "PER_PAGE = 200"

section \<open>Python helpers\<close>

text \<open>Truth value of a Python object (\<^verbatim>\<open>if x\<close>, \<^verbatim>\<open>not x\<close>); \<open>Null\<close> is \<^verbatim>\<open>None\<close> here.\<close>

fun truthy :: "val \<Rightarrow> bool" where
  "truthy Null = False"
| "truthy (Bool b) = b"
| "truthy (Num x) = (x \<noteq> 0)"
| "truthy (Str s) = (s \<noteq> [])"
| "truthy (Dict d) = (d \<noteq> [])"
| "truthy (Arr a) = (a \<noteq> [])"
| "truthy (LineString c) = True"

text \<open>\<^verbatim>\<open>d.get(k)\<close> on a dict: \<^verbatim>\<open>None\<close> for a missing key.\<close>

definition dict_get :: "(string \<times> val) list \<Rightarrow> string \<Rightarrow> val" where
  "dict_get d k = (case map_of d k of None \<Rightarrow> Null | Some v \<Rightarrow> v)"

text \<open>\<^verbatim>\<open>int(x)\<close> on a float truncates towards zero.\<close>

definition py_int :: "rat \<Rightarrow> int" where
  "py_int x = (if 0 \<le> x then \<lfloor>x\<rfloor> else \<lceil>x\<rceil>)"

text \<open>\<^verbatim>\<open>str(n)\<close> for integers, as the f-strings of the script print them.\<close>

fun str_nat :: "nat \<Rightarrow> string" where
  "str_nat n =
     (if n < 10 then [char_of (48 + n)]
      else str_nat (n div 10) @ [char_of (48 + n mod 10)])"

declare str_nat.simps [simp del]

definition str_int :: "int \<Rightarrow> string" where
  "str_int i = (if i < 0 then CHR ''-'' # str_nat (nat (- i)) else str_nat (nat i))"

section \<open>Data frames\<close>

text \<open>\<^verbatim>\<open>df[c]\<close>: the cells of one column, in row order.\<close>

definition column :: "string \<Rightarrow> frame \<Rightarrow> val list" where
  "column c df = map (\<lambda>r. r c) (rows df)"

text \<open>
  \<^verbatim>\<open>pd.DataFrame(rows)\<close> for a list of dicts: the columns are the keys in the order of
  their first appearance, and a key that a dict lacks gives a missing cell.
\<close>

definition DataFrame :: "activity list \<Rightarrow> frame" where
  "DataFrame ds =
     \<lparr>columns = rev (remdups (rev (concat (map (map fst) ds)))),
      rows = map (\<lambda>d. dict_get d) ds\<rparr>"

text \<open>\<^verbatim>\<open>df[cols].copy()\<close>: the frame restricted to the listed columns.\<close>

definition select :: "string list \<Rightarrow> frame \<Rightarrow> frame" where
  "select cols df =
     \<lparr>columns = cols,
      rows = map (\<lambda>r c. if c \<in> set cols then r c else Null) (rows df)\<rparr>"

text \<open>\<^verbatim>\<open>df[c] = values\<close>: overwrite the column, or append it as the last one.\<close>

definition set_column :: "string \<Rightarrow> val list \<Rightarrow> frame \<Rightarrow> frame" where
  "set_column c vs df =
     \<lparr>columns = (if c \<in> set (columns df) then columns df else columns df @ [c]),
      rows = map (\<lambda>(r, v). r(c := v)) (zip (rows df) vs)\<rparr>"

text \<open>\<^verbatim>\<open>df.drop(columns=[c])\<close>.\<close>

definition drop_column :: "string \<Rightarrow> frame \<Rightarrow> frame" where
  "drop_column c df =
     \<lparr>columns = filter (\<lambda>c'. c' \<noteq> c) (columns df),
      rows = map (\<lambda>r. r(c := Null)) (rows df)\<rparr>"

text \<open>\<^verbatim>\<open>df.rename(columns={k: v})\<close>.\<close>

definition rename_column :: "string \<Rightarrow> string \<Rightarrow> frame \<Rightarrow> frame" where
  "rename_column k v df =
     \<lparr>columns = map (\<lambda>c. if c = k then v else c) (columns df),
      rows = map (\<lambda>r. (r(v := r k))(k := Null)) (rows df)\<rparr>"

text \<open>
  A row as \<^verbatim>\<open>df.apply(f, axis=1)\<close> hands it to \<open>f\<close>: a \<^verbatim>\<open>Series\<close> whose index is the
  frame's columns.
\<close>

record series =
  index :: "string list"
  cell :: row

text \<open>\<^verbatim>\<open>s.get(k, default)\<close> on a Series: the default only when \<open>k\<close> is no label.\<close>

definition series_get :: "series \<Rightarrow> string \<Rightarrow> val \<Rightarrow> val" where
  "series_get s k dflt = (if k \<in> set (index s) then cell s k else dflt)"

text \<open>Running \<open>f\<close> over a list stops at the first exception.\<close>

fun map_result :: "('a \<Rightarrow> error + 'b) \<Rightarrow> 'a list \<Rightarrow> error + 'b list" where
  "map_result f [] = Inr []"
| "map_result f (x # xs) =
     (case f x of
        Inl e \<Rightarrow> Inl e
      | Inr y \<Rightarrow> (case map_result f xs of Inl e \<Rightarrow> Inl e | Inr ys \<Rightarrow> Inr (y # ys)))"

definition apply_rows :: "(series \<Rightarrow> error + val) \<Rightarrow> frame \<Rightarrow> error + val list" where
  "apply_rows f df = map_result (\<lambda>r. f \<lparr>index = columns df, cell = r\<rparr>) (rows df)"

text \<open>
  \<^verbatim>\<open>Series.max()\<close> on timestamps skips \<^verbatim>\<open>NaT\<close>; with no timestamp left the result is
  \<^verbatim>\<open>NaT\<close>.
\<close>

definition later :: "Timestamp \<Rightarrow> Timestamp \<Rightarrow> Timestamp" where
  "later a b = (if timestamp b < timestamp a then a else b)"

definition series_max :: "Timestamp option list \<Rightarrow> Timestamp option" where
  "series_max ds =
     (case List.map_filter (\<lambda>d. d) ds of
        [] \<Rightarrow> None
      | t # ts \<Rightarrow> Some (fold later ts t))"


section \<open>The polyline package\<close>

text \<open>
  Modelled from the spec: the third-party package \<^verbatim>\<open>polyline\<close> (\<^verbatim>\<open>polyline.decode\<close> is
  called by the script, \<^verbatim>\<open>polyline.encode\<close> is its inverse direction) is not under
  \<^verbatim>\<open>src/\<close>. The definitions follow the standard encoded polyline algorithm the spec
  names: precision 5, deltas between consecutive points, each delta shifted left by
  one bit and complemented when negative, then cut into 5-bit chunks from the low end,
  every chunk but the last marked with \<^verbatim>\<open>0x20\<close>, each chunk plus 63 as one character.
  Coordinates are exact rationals where the package computes with floats.
\<close>

definition factor :: rat where
  "factor = 100000"

text \<open>
  Modelled from the spec: reading one value (\<^verbatim>\<open>_trans\<close>). The loop reads characters
  until a chunk without the continuation mark; reading beyond the end of the string is
  an \<^verbatim>\<open>IndexError\<close>. The string argument is the part not yet read.
\<close>

fun trans_loop :: "string \<Rightarrow> int \<Rightarrow> nat \<Rightarrow> error + (int \<times> string)" where
  "trans_loop [] result shift = Inl IndexError"
| "trans_loop (c # cs) result shift =
     (let byte = of_char c - 63;
          result' = result OR push_bit shift (byte AND 31)
      in if byte \<ge> 32 then trans_loop cs result' (shift + 5)
         else Inr ((if result' AND 1 \<noteq> 0 then NOT (drop_bit 1 result')
                    else drop_bit 1 result'), cs))"

text \<open>Modelled from the spec: \<^verbatim>\<open>_trans\<close> starts with no bits read.\<close>

definition trans :: "string \<Rightarrow> error + (int \<times> string)" where
  "trans s = trans_loop s 0 0"

text \<open>
  Modelled from the spec: \<^verbatim>\<open>polyline.decode\<close>. Two values per point, added to the
  running latitude and longitude; the point is (latitude, longitude), each divided by
  the factor.
\<close>

function decode_loop :: "string \<Rightarrow> int \<Rightarrow> int \<Rightarrow> (rat \<times> rat) list \<Rightarrow> error + (rat \<times> rat) list" where
  "decode_loop s lat lng coordinates =
     (if s = [] then Inr coordinates
      else case trans s of
        Inl e \<Rightarrow> Inl e
      | Inr (lat_change, s1) \<Rightarrow>
          (case trans s1 of
             Inl e \<Rightarrow> Inl e
           | Inr (lng_change, s2) \<Rightarrow>
               decode_loop s2 (lat + lat_change) (lng + lng_change)
                 (coordinates @
                    [(of_int (lat + lat_change) / factor, of_int (lng + lng_change) / factor)])))"
  by pat_completeness auto
termination
proof (relation "measure (\<lambda>(s, lat, lng, coordinates). length s)")
  show "wf (measure (\<lambda>(s, lat, lng, coordinates). length s))"
    by simp
next
  fix s :: string and lat lng :: int and coordinates :: "(rat \<times> rat) list"
    and x2 x y x2a xa ya
  assume s: "s \<noteq> []" and t1: "trans s = Inr x2" "(x, y) = x2"
    and t2: "trans y = Inr x2a" "(xa, ya) = x2a"
  have shorter: "length rest < length cs"
    if "trans_loop cs r sh = Inr (v, rest)" for cs r sh v rest
    using that
  proof (induction cs arbitrary: r sh)
    case Nil
    then show ?case by simp
  next
    case (Cons c cs)
    show ?case
    proof (cases "of_char c - 63 \<ge> (32::int)")
      case True
      with Cons.prems
      have "trans_loop cs (r OR push_bit sh ((of_char c - 63) AND 31)) (sh + 5) = Inr (v, rest)"
        by (simp add: Let_def)
      then have "length rest < length cs" by (rule Cons.IH)
      then show ?thesis by simp
    next
      case False
      with Cons.prems have "rest = cs" by (simp add: Let_def)
      then show ?thesis by simp
    qed
  qed
  from t1 have "length y < length s"
    using shorter [of s 0 0 x y] by (simp add: trans_def)
  moreover from t2 have "length ya < length y"
    using shorter [of y 0 0 xa ya] by (simp add: trans_def)
  ultimately show "((ya, lat + x, lng + xa,
       coordinates @ [(of_int (lat + x) / factor, of_int (lng + xa) / factor)]),
      s, lat, lng, coordinates) \<in> measure (\<lambda>(s, lat, lng, coordinates). length s)"
    by simp
qed

declare decode_loop.simps [simp del]

text \<open>
  Modelled from the spec: \<^verbatim>\<open>polyline.decode(expression)\<close> starts at latitude and
  longitude zero with no point decoded.
\<close>

definition polyline_decode :: "string \<Rightarrow> error + (rat \<times> rat) list" where
  "polyline_decode expression = decode_loop expression 0 0 []"

text \<open>
  Modelled from the spec: the rounding of \<^verbatim>\<open>polyline.encode\<close>, half away from zero.
\<close>

definition py2_round :: "rat \<Rightarrow> int" where
  "py2_round x = (if 0 \<le> x then \<lfloor>\<bar>x\<bar> + 1 / 2\<rfloor> else - \<lfloor>\<bar>x\<bar> + 1 / 2\<rfloor>)"

text \<open>
  Modelled from the spec: the loop of \<^verbatim>\<open>_write\<close>: the 5-bit chunks of a non-negative
  number, low end first, every chunk but the last marked with \<^verbatim>\<open>0x20\<close>.
\<close>

function write_chunks :: "int \<Rightarrow> string" where
  "write_chunks coord =
     (if coord \<ge> 32 then
        char_of ((32 OR (coord AND 31)) + 63) # write_chunks (drop_bit 5 coord)
      else [char_of (coord + 63)])"
  by pat_completeness auto
termination
proof (relation "measure nat")
  show "wf (measure nat)" by simp
next
  fix coord :: int
  assume "32 \<le> coord"
  then have "coord div 32 < coord" by simp
  then show "(drop_bit 5 coord, coord) \<in> measure nat"
    using \<open>32 \<le> coord\<close> by (simp add: drop_bit_eq_div)
qed

declare write_chunks.simps [simp del]

text \<open>
  Modelled from the spec: writing one value (\<^verbatim>\<open>_write\<close>): the difference of the two
  rounded values, shifted left by one bit and complemented when negative.
\<close>

definition write_value :: "rat \<Rightarrow> rat \<Rightarrow> string" where
  "write_value curr_value prev_value =
     (let coord = py2_round (curr_value * factor) - py2_round (prev_value * factor);
          coord = push_bit 1 coord;
          coord = (if coord \<ge> 0 then coord else NOT coord)
      in write_chunks coord)"

text \<open>Modelled from the spec: each point with its successor, as the encoder pairs them.\<close>

definition pairwise_list :: "'a list \<Rightarrow> ('a \<times> 'a) list" where
  "pairwise_list xs = zip xs (tl xs)"

text \<open>
  Modelled from the spec: \<^verbatim>\<open>polyline.encode\<close>. The first point is written against
  zero, every later point against its predecessor; an empty list has no first point.
\<close>

definition polyline_encode :: "(rat \<times> rat) list \<Rightarrow> error + string" where
  "polyline_encode coordinates =
     (case coordinates of
        [] \<Rightarrow> Inl IndexError
      | c0 # _ \<Rightarrow>
          Inr (write_value (fst c0) 0 @ write_value (snd c0) 0 @
               concat (map (\<lambda>(prev, curr).
                        write_value (fst curr) (fst prev) @ write_value (snd curr) (snd prev))
                      (pairwise_list coordinates))))"

section \<open>The outside world\<close>

text \<open>
  An HTTP response as the script reads it: \<^verbatim>\<open>r.status_code\<close>, \<^verbatim>\<open>r.text\<close> (\<open>text_of\<close>) and
  \<^verbatim>\<open>r.json()\<close>.
\<close>

record 'j response =
  status_code :: nat
  text_of :: string
  json :: 'j

text \<open>The three credentials read from the process environment.\<close>

record env =
  CLIENT_ID :: val
  CLIENT_SECRET :: val
  REFRESH_TOKEN :: val

text \<open>
  The remote API: the token endpoint answers a POST with the three credentials; the
  activity list answers a GET with the bearer token, the page number, the page size and
  the optional \<^verbatim>\<open>after\<close> filter.
\<close>

record remote =
  oauth_token :: "val \<Rightarrow> val \<Rightarrow> val \<Rightarrow> (string \<times> val) list response"
  athlete_activities :: "val \<Rightarrow> nat \<Rightarrow> nat \<Rightarrow> int option \<Rightarrow> activity list response"

text \<open>
  What a path of the file system holds for \<^verbatim>\<open>gpd.read_file\<close>: a dataset, or something
  it cannot read. The local state of a run is the files by path and the lines printed.
  Directories are no part of it: the two \<^verbatim>\<open>os.makedirs(_, exist_ok=True)\<close> calls at the
  start of the script create the output directories and touch no file. A shapefile is
  held under the path of its \<^verbatim>\<open>.shp\<close> file, the companion files with it.
\<close>

datatype file_content = Dataset frame | Unreadable

record world =
  files :: "string \<rightharpoonup> file_content"
  stdout :: "string list"

definition print :: "string \<Rightarrow> world \<Rightarrow> world" where
  "print line w = w\<lparr>stdout := stdout w @ [line]\<rparr>"

text \<open>\<^verbatim>\<open>gdf.to_file(path)\<close> replaces what the path holds by the dataset.\<close>

definition to_file :: "string \<Rightarrow> frame \<Rightarrow> world \<Rightarrow> world" where
  "to_file path gdf w = w\<lparr>files := (files w)(path \<mapsto> Dataset gdf)\<rparr>"

text \<open>\<^verbatim>\<open>gpd.read_file(path)\<close> on an existing path: the dataset, or an exception.\<close>

definition read_file :: "file_content \<Rightarrow> error + frame" where
  "read_file f = (case f of Dataset gdf \<Rightarrow> Inr gdf | Unreadable \<Rightarrow> Inl (RuntimeError ''read_file''))"

section \<open>Helpers of the script\<close>

text \<open>
  \<^verbatim>\<open>
  def refresh_access_token():
      r = requests.post(...)
      if r.status_code != 200:
          raise RuntimeError(f"Token refresh failed: {r.status_code} {r.text}")
      tokens = r.json()
      return tokens["access_token"], tokens["refresh_token"], tokens["expires_at"]
  \<close>
\<close>

definition refresh_access_token :: "env \<Rightarrow> remote \<Rightarrow> error + (val \<times> val \<times> val)" where
  "refresh_access_token E R =
     (let r = oauth_token R (CLIENT_ID E) (CLIENT_SECRET E) (REFRESH_TOKEN E) in
      if status_code r \<noteq> 200 then
        Inl (RuntimeError (''Token refresh failed: '' @ str_nat (status_code r) @ '' '' @ text_of r))
      else
        (case map_of (json r) ''access_token'' of
           None \<Rightarrow> Inl KeyError
         | Some a \<Rightarrow>
             (case map_of (json r) ''refresh_token'' of
                None \<Rightarrow> Inl KeyError
              | Some b \<Rightarrow>
                  (case map_of (json r) ''expires_at'' of
                     None \<Rightarrow> Inl KeyError
                   | Some c \<Rightarrow> Inr (a, b, c)))))"

text \<open>
  \<^verbatim>\<open>
  def strava_get_activities(access_token, page=1, per_page=200, after=None):
      url = f".../athlete/activities?page={page}&per_page={per_page}"
      if after is not None:
          url += f"&after={after}"
      r = requests.get(url, headers={"Authorization": f"Bearer {access_token}"}, timeout=60)
      if r.status_code != 200:
          raise RuntimeError(f"Fetch activities failed: {r.status_code} {r.text}")
      return r.json()
  \<close>
\<close>

definition strava_get_activities ::
  "remote \<Rightarrow> val \<Rightarrow> nat \<Rightarrow> nat \<Rightarrow> int option \<Rightarrow> error + activity list" where
  "strava_get_activities R access_token page per_page after =
     (let r = athlete_activities R access_token page per_page after in
      if status_code r \<noteq> 200 then
        Inl (RuntimeError (''Fetch activities failed: '' @ str_nat (status_code r) @ '' '' @ text_of r))
      else Inr (json r))"

text \<open>
  \<^verbatim>\<open>
  def decode_summary_polyline(activity):
      geom = activity.get("map", {}).get("summary_polyline")
      if not geom:
          return None
      coords = polyline.decode(geom)
      if len(coords) < 2:
          return None
      lonlat = [(lon, lat) for (lat, lon) in coords]
      return LineString(lonlat)
  \<close>
  The only caller passes a row of a data frame. The second \<^verbatim>\<open>.get\<close> exists on a dict
  only: on any other value (a missing cell is a float \<^verbatim>\<open>NaN\<close> or \<^verbatim>\<open>None\<close>) the
  attribute lookup raises \<^verbatim>\<open>AttributeError\<close>. \<^verbatim>\<open>polyline.decode\<close> on a true value that
  is no string raises \<^verbatim>\<open>TypeError\<close>.
\<close>

definition decode_summary_polyline :: "series \<Rightarrow> error + val" where
  "decode_summary_polyline activity =
     (case series_get activity ''map'' (Dict []) of
        Dict m \<Rightarrow>
          (let geom = dict_get m ''summary_polyline'' in
           if \<not> truthy geom then Inr Null
           else
             (case geom of
                Str g \<Rightarrow>
                  (case polyline_decode g of
                     Inl e \<Rightarrow> Inl e
                   | Inr coords \<Rightarrow>
                       if length coords < 2 then Inr Null
                       else Inr (LineString (map (\<lambda>(lat, lon). (lon, lat)) coords)))
              | _ \<Rightarrow> Inl TypeError))
      | _ \<Rightarrow> Inl AttributeError)"

text \<open>
  \<^verbatim>\<open>
  def load_existing_geojson(path):
      if os.path.exists(path):
          try:
              gdf = gpd.read_file(path)
              return gdf
          except Exception:
              pass
      return gpd.GeoDataFrame(columns=["id"], geometry=[], crs="EPSG:4326")
  \<close>
\<close>

definition empty_gdf :: frame where
  "empty_gdf = \<lparr>columns = [''id'', ''geometry''], rows = []\<rparr>"

definition load_existing_geojson :: "world \<Rightarrow> string \<Rightarrow> frame" where
  "load_existing_geojson w path =
     (case files w path of
        Some f \<Rightarrow> (case read_file f of Inr gdf \<Rightarrow> gdf | Inl e \<Rightarrow> empty_gdf)
      | None \<Rightarrow> empty_gdf)"

text \<open>
  \<^verbatim>\<open>
  def tidy_columns(df):
      wanted = [...]
      cols = [c for c in wanted if c in df.columns]
      slim = df[cols].copy()
      if "start_date" in slim.columns:
          dt = pd.to_datetime(slim["start_date"], errors="coerce", utc=True)
          slim["date"] = dt.dt.date.astype(str)
          slim["year"] = dt.dt.year
          slim["month"] = dt.dt.month
      for c in list(slim.columns):
          if c == "map":
              continue
          if len(slim) and isinstance(slim[c].iloc[0], (list, dict)):
              slim[c] = slim[c].apply(lambda x: json.dumps(x) if isinstance(x, (list, dict)) else x)
      return slim
  \<close>
  \<^verbatim>\<open>astype(str)\<close> turns a date into its ISO string and a missing date into what the
  installed pandas makes of it (\<open>astype_str_na\<close>); \<^verbatim>\<open>.dt.year\<close> and \<^verbatim>\<open>.dt.month\<close> of
  a missing date are missing.
\<close>

definition wanted :: "string list" where
  "wanted =
     [''id'', ''name'', ''type'', ''distance'', ''moving_time'', ''elapsed_time'',
      ''total_elevation_gain'', ''start_date'', ''sport_type'', ''average_speed'',
      ''max_speed'', ''kudos_count'', ''map'']"

definition missing_as_str :: "libs \<Rightarrow> val" where
  "missing_as_str L = (case astype_str_na L of None \<Rightarrow> Null | Some s \<Rightarrow> Str s)"

definition dt_date_astype_str :: "libs \<Rightarrow> Timestamp option \<Rightarrow> val" where
  "dt_date_astype_str L d = (case d of None \<Rightarrow> missing_as_str L | Some t \<Rightarrow> Str (date t))"

definition dt_year :: "Timestamp option \<Rightarrow> val" where
  "dt_year d = (case d of None \<Rightarrow> Null | Some t \<Rightarrow> Num (of_int (year t)))"

definition dt_month :: "Timestamp option \<Rightarrow> val" where
  "dt_month d = (case d of None \<Rightarrow> Null | Some t \<Rightarrow> Num (of_int (month t)))"

definition expand_dates :: "libs \<Rightarrow> frame \<Rightarrow> frame" where
  "expand_dates L slim =
     (if ''start_date'' \<in> set (columns slim) then
        (let dt = map (to_datetime L) (column ''start_date'' slim);
             slim = set_column ''date'' (map (dt_date_astype_str L) dt) slim;
             slim = set_column ''year'' (map dt_year dt) slim;
             slim = set_column ''month'' (map dt_month dt) slim
         in slim)
      else slim)"

fun is_list_or_dict :: "val \<Rightarrow> bool" where
  "is_list_or_dict (Dict d) = True"
| "is_list_or_dict (Arr a) = True"
| "is_list_or_dict v = False"

definition dumps_column :: "libs \<Rightarrow> string \<Rightarrow> frame \<Rightarrow> frame" where
  "dumps_column L c slim =
     (if c = ''map'' then slim
      else if len slim \<noteq> 0 \<and> is_list_or_dict (hd (column c slim)) then
        set_column c
          (map (\<lambda>x. if is_list_or_dict x then Str (json_dumps L x) else x) (column c slim))
          slim
      else slim)"

definition tidy_columns :: "libs \<Rightarrow> frame \<Rightarrow> frame" where
  "tidy_columns L df =
     (let cols = filter (\<lambda>c. c \<in> set (columns df)) wanted;
          slim = select cols df;
          slim = expand_dates L slim
      in fold (dumps_column L) (columns slim) slim)"

text \<open>
  \<^verbatim>\<open>
  def build_geodataframe(rows):
      df = pd.DataFrame(rows)
      df = tidy_columns(df)
      df["geometry"] = df.apply(lambda r: decode_summary_polyline(r), axis=1)
      gdf = gpd.GeoDataFrame(df, geometry="geometry", crs="EPSG:4326")
      gdf = gdf[gdf.geometry.notnull() & gdf.geometry.is_valid]
      if "map" in gdf.columns:
          gdf = gdf.drop(columns=["map"])
      return gdf
  \<close>
\<close>

fun geometry_ok :: "libs \<Rightarrow> val \<Rightarrow> bool" where
  "geometry_ok L (LineString c) = is_valid L c"
| "geometry_ok L v = False"

definition build_geodataframe :: "libs \<Rightarrow> activity list \<Rightarrow> error + frame" where
  "build_geodataframe L new_rows =
     (let df = DataFrame new_rows;
          df = tidy_columns L df
      in case apply_rows decode_summary_polyline df of
           Inl e \<Rightarrow> Inl e
         | Inr geoms \<Rightarrow>
             (let df = set_column ''geometry'' geoms df;
                  gdf = df\<lparr>rows := filter (\<lambda>r. r ''geometry'' \<noteq> Null \<and> geometry_ok L (r ''geometry''))
                                     (rows df)\<rparr>;
                  gdf = (if ''map'' \<in> set (columns gdf) then drop_column ''map'' gdf else gdf)
              in Inr gdf))"

section \<open>The main program\<close>

text \<open>
  The lower time bound of the fetch:
  \<^verbatim>\<open>
  after_ts = None
  if len(existing):
      if "date" in existing.columns:
          try:
              last_date = pd.to_datetime(existing["date"], utc=True, errors="coerce").max()
          except Exception:
              last_date = None
      else:
          last_date = None
      if last_date is not None and pd.notnull(last_date):
          after_ts = int(last_date.timestamp())
          after_ts -= 24 * 3600
  \<close>
  With \<^verbatim>\<open>errors="coerce"\<close> an entry that does not parse becomes \<^verbatim>\<open>NaT\<close>, so the call
  is modelled as one that does not raise; \<^verbatim>\<open>None\<close> and \<^verbatim>\<open>NaT\<close> are both \<open>None\<close>.
\<close>

definition compute_after_ts :: "libs \<Rightarrow> frame \<Rightarrow> int option" where
  "compute_after_ts L existing =
     (if len existing \<noteq> 0 then
        (let last_date =
               (if ''date'' \<in> set (columns existing) then
                  series_max (map (to_datetime L) (column ''date'' existing))
                else None)
         in case last_date of
              None \<Rightarrow> None
            | Some d \<Rightarrow> Some (py_int (timestamp d) - 24 * 3600))
      else None)"

text \<open>
  The pagination loop; \<open>None\<close> is a loop that never ends, \<open>Some (Inl e)\<close> a run that
  the exception \<open>e\<close> ends.
  \<^verbatim>\<open>
  page = 1
  new_rows = []
  while True:
      items = strava_get_activities(access_token, page=page, per_page=PER_PAGE, after=after_ts)
      if not items:
          break
      for a in items:
          new_rows.append(a)
      if len(items) < PER_PAGE:
          break
      page += 1
      time.sleep(0.5)
  \<close>
\<close>

partial_function (option) fetch_pages ::
  "remote \<Rightarrow> val \<Rightarrow> int option \<Rightarrow> nat \<Rightarrow> activity list \<Rightarrow> (error + activity list) option" where
  "fetch_pages R access_token after_ts page new_rows =
     (case strava_get_activities R access_token page PER_PAGE after_ts of
        Inl e \<Rightarrow> Some (Inl e)
      | Inr items \<Rightarrow>
          if items = [] then Some (Inr new_rows)
          else if length items < PER_PAGE then Some (Inr (new_rows @ items))
          else fetch_pages R access_token after_ts (page + 1) (new_rows @ items))"

text \<open>
  The write block:
  \<^verbatim>\<open>
  if len(combined_gdf):
      combined_gdf.to_file(GEOJSON_PATH, driver="GeoJSON")
      print(f"[ok] wrote {GEOJSON_PATH}")
      shp_path = os.path.join(SHAPE_DIR, SHAPE_BASENAME + ".shp")
      safe = combined_gdf.copy()
      rename_map = {"start_date": "start_dt", "average_speed": "avg_speed",
                    "total_elevation_gain": "elev_gain"}
      for k, v in rename_map.items():
          if k in safe.columns:
              safe = safe.rename(columns={k: v})
      safe.to_file(shp_path)
      print(f"[ok] wrote {shp_path} (and companion files)")
  else:
      print("[info] nothing to update")
  \<close>
\<close>

definition rename_map :: "(string \<times> string) list" where
  "rename_map =
     [(''start_date'', ''start_dt''), (''average_speed'', ''avg_speed''),
      (''total_elevation_gain'', ''elev_gain'')]"

definition shp_path :: string where
  "shp_path = SHAPE_DIR @ ''/'' @ SHAPE_BASENAME @ ''.shp''"

definition shapefile_safe :: "frame \<Rightarrow> frame" where
  "shapefile_safe combined_gdf =
     fold (\<lambda>(k, v) safe. if k \<in> set (columns safe) then rename_column k v safe else safe)
       rename_map combined_gdf"

definition write_block :: "frame \<Rightarrow> world \<Rightarrow> world" where
  "write_block combined_gdf w =
     (if len combined_gdf \<noteq> 0 then
        (let w = to_file GEOJSON_PATH combined_gdf w;
             w = print (''[ok] wrote '' @ GEOJSON_PATH) w;
             safe = shapefile_safe combined_gdf;
             w = to_file shp_path safe w;
             w = print (''[ok] wrote '' @ shp_path @ '' (and companion files)'') w
         in w)
      else print ''[info] nothing to update'' w)"

text \<open>
  The whole run. The result pairs the exception that ended the run, if any, with the
  local state the run leaves; \<open>None\<close> is a run whose pagination never ends.
\<close>

definition str_after :: "int option \<Rightarrow> string" where
  "str_after a = (case a of None \<Rightarrow> ''None'' | Some t \<Rightarrow> str_int t)"

definition main :: "libs \<Rightarrow> env \<Rightarrow> remote \<Rightarrow> world \<Rightarrow> (error option \<times> world) option" where
  "main L E R w =
     (case refresh_access_token E R of
        Inl e \<Rightarrow> Some (Some e, w)
      | Inr (access_token, new_refresh, expires) \<Rightarrow>
          (let w = (if truthy new_refresh \<and> new_refresh \<noteq> REFRESH_TOKEN E then
                      print ''[info] Strava issued a new refresh token this run. Store it in your GitHub Secrets if you want to rotate.'' w
                    else w);
               existing = load_existing_geojson w GEOJSON_PATH;
               after_ts = compute_after_ts L existing;
               w = print (''[info] Incremental fetch using after='' @ str_after after_ts) w
           in case fetch_pages R access_token after_ts 1 [] of
                None \<Rightarrow> None
              | Some (Inl e) \<Rightarrow> Some (Some e, w)
              | Some (Inr new_rows) \<Rightarrow>
                  (let w = print (''[info] fetched '' @ str_nat (length new_rows)
                                   @ '' activities (raw) this run'') w
                   in case build_geodataframe L new_rows of
                        Inl e \<Rightarrow> Some (Some e, w)
                      | Inr new_gdf \<Rightarrow>
                          Some (None, write_block (merge_block existing new_gdf) w))))"

section \<open>Notions used in the statements\<close>

text \<open>The timestamps of the stored dates that parse.\<close>

definition parsed_dates :: "libs \<Rightarrow> frame \<Rightarrow> rat list" where
  "parsed_dates L existing =
     map timestamp (List.map_filter (to_datetime L) (column ''date'' existing))"

text \<open>The items of page \<open>p\<close>, when the request for it succeeds.\<close>

definition page_items :: "remote \<Rightarrow> val \<Rightarrow> int option \<Rightarrow> nat \<Rightarrow> activity list" where
  "page_items R access_token after_ts p =
     (case strava_get_activities R access_token p PER_PAGE after_ts of
        Inl e \<Rightarrow> []
      | Inr items \<Rightarrow> items)"

text \<open>A point with both coordinates rounded to five decimals, as the encoder sees it.\<close>

definition round5 :: "rat \<times> rat \<Rightarrow> rat \<times> rat" where
  "round5 c =
     (of_int (py2_round (fst c * factor)) / factor, of_int (py2_round (snd c * factor)) / factor)"

text \<open>The characters the encoder writes for one point after its predecessor.\<close>

definition write_pair :: "rat \<times> rat \<Rightarrow> rat \<times> rat \<Rightarrow> string" where
  "write_pair prev cur = write_value (fst cur) (fst prev) @ write_value (snd cur) (snd prev)"

section \<open>Example data\<close>

text \<open>
  Records, datasets and library functions for the concrete instances below. The
  example library parses two dates and behaves as pandas before 3.0.
\<close>

definition example_to_datetime :: "val \<Rightarrow> Timestamp option" where
  "example_to_datetime v =
     (if v = Str ''2024-01-01'' then
        Some \<lparr>timestamp = 1704067200, year = 2024, month = 1, date = ''2024-01-01''\<rparr>
      else if v = Str ''2024-01-02'' then
        Some \<lparr>timestamp = 1704153600, year = 2024, month = 1, date = ''2024-01-02''\<rparr>
      else None)"

definition example_libs :: libs where
  "example_libs =
     \<lparr>to_datetime = example_to_datetime,
      astype_str_na = Some ''NaT'',
      json_dumps = (\<lambda>v. ''{}''),
      is_valid = (\<lambda>c. 2 \<le> length (remdups c))\<rparr>"

definition ex_stored :: frame where
  "ex_stored =
     \<lparr>columns = [''id'', ''date'', ''geometry''],
      rows = [dict_get [(''id'', Num 1), (''date'', Str ''2024-01-02'')],
              dict_get [(''id'', Num 2), (''date'', Str ''2024-01-01'')],
              dict_get [(''id'', Num 3), (''date'', Str ''NaT'')]]\<rparr>"

definition ex_world_unreadable :: world where
  "ex_world_unreadable = \<lparr>files = [GEOJSON_PATH \<mapsto> Unreadable], stdout = []\<rparr>"

definition ex_world_fresh :: world where
  "ex_world_fresh = \<lparr>files = Map.empty, stdout = []\<rparr>"

definition ex_remote :: remote where
  "ex_remote =
     \<lparr>oauth_token = (\<lambda>cid secret refresh.
        \<lparr>status_code = 200, text_of = [],
         json = [(''access_token'', Str ''a''), (''refresh_token'', Str ''r''),
                 (''expires_at'', Num 0)]\<rparr>),
      athlete_activities = (\<lambda>token page per_page after.
        \<lparr>status_code = 200, text_of = [],
         json = (if page = 1 then replicate 200 [(''id'', Num 1)]
                 else if page = 2 then [[(''id'', Num 2)]]
                 else [[(''id'', Num 3)]])\<rparr>)\<rparr>"

definition stored_1 :: activity where
  "stored_1 = [(''id'', Num 1), (''start_date'', Str ''2024-01-01''), (''kudos_count'', Num 0)]"

definition fetched_1 :: activity where
  "fetched_1 = [(''id'', Num 1), (''start_date'', Str ''2024-01-01''), (''kudos_count'', Num 5)]"

definition fetched_2 :: activity where
  "fetched_2 = [(''id'', Num 2), (''start_date'', Str ''2024-01-02'')]"

definition ex_existing :: frame where
  "ex_existing =
     \<lparr>columns = [''id'', ''start_date'', ''kudos_count'', ''geometry''],
      rows = [dict_get stored_1]\<rparr>"

definition ex_new :: frame where
  "ex_new =
     \<lparr>columns = [''id'', ''start_date'', ''kudos_count'', ''geometry''],
      rows = [dict_get fetched_1, dict_get fetched_2]\<rparr>"

definition ex_twice :: frame where
  "ex_twice =
     \<lparr>columns = [''id'', ''start_date'', ''kudos_count'', ''geometry''],
      rows = [dict_get fetched_1, dict_get fetched_1]\<rparr>"

definition stored_no_id :: activity where
  "stored_no_id = [(''name'', Str ''Morning Run'')]"

definition ex_no_id :: frame where
  "ex_no_id =
     \<lparr>columns = [''name'', ''geometry''],
      rows = [dict_get stored_no_id]\<rparr>"

definition act_with_map :: activity where
  "act_with_map =
     [(''id'', Num 1), (''name'', Str ''Ride''), (''start_date'', Str ''2024-01-01''),
      (''map'', Dict [(''id'', Str ''a1''), (''summary_polyline'', Str ''_p~iF~ps|U_ulLnnqC'')])]"

definition act_without_map :: activity where
  "act_without_map = [(''id'', Num 2), (''start_date'', Str ''2024-01-02'')]"

definition act_bad_date :: activity where
  "act_bad_date = [(''id'', Num 3), (''start_date'', Str ''not a date'')]"

definition ex_coords :: "(rat \<times> rat) list" where
  "ex_coords = [(77 / 2, - (601 / 5)), (407 / 10, - (2419 / 20))]"

definition ex_activity_row :: series where
  "ex_activity_row =
     \<lparr>index = [''id'', ''name'', ''start_date'', ''map''], cell = dict_get act_with_map\<rparr>"

definition ex_env :: env where
  "ex_env = \<lparr>CLIENT_ID = Str ''1'', CLIENT_SECRET = Str ''s'', REFRESH_TOKEN = Str ''r''\<rparr>"

definition ex_remote_one_page :: remote where
  "ex_remote_one_page =
     \<lparr>oauth_token = (\<lambda>cid secret refresh.
        \<lparr>status_code = 200, text_of = [],
         json = [(''access_token'', Str ''a''), (''refresh_token'', Str ''r''),
                 (''expires_at'', Num 0)]\<rparr>),
      athlete_activities = (\<lambda>token page per_page after.
        \<lparr>status_code = 200, text_of = [],
         json = (if page = 1 then [act_with_map, act_with_map] else [])\<rparr>)\<rparr>"

section \<open>Properties of the merge\<close>

lemma drop_duplicates_last_subset:
  "set (drop_duplicates_last k rs) \<subseteq> set rs"
  by (induction rs) (auto simp: list_ex_iff)

lemma drop_duplicates_last_keys:
  "(\<lambda>r. r k) ` set (drop_duplicates_last k rs) = (\<lambda>r. r k) ` set rs"
proof (induction rs)
  case Nil
  show ?case by simp
next
  case (Cons r rs)
  show ?case
  proof (cases "list_ex (\<lambda>r'. r' k = r k) rs")
    case True
    then obtain r' where r': "r' \<in> set rs" "r k = r' k"
      by (auto simp: list_ex_iff)
    have "r k \<in> (\<lambda>r. r k) ` set rs"
      by (rule image_eqI [where x = r']) (rule r')+
    with True Cons.IH show ?thesis by auto
  next
    case False
    with Cons.IH show ?thesis by simp
  qed
qed

lemma drop_duplicates_last_distinct:
  "distinct (map (\<lambda>r. r k) (drop_duplicates_last k rs))"
proof (induction rs)
  case Nil
  show ?case by simp
next
  case (Cons r rs)
  show ?case
  proof (cases "list_ex (\<lambda>r'. r' k = r k) rs")
    case True
    with Cons.IH show ?thesis by simp
  next
    case False
    then have "r k \<notin> (\<lambda>r. r k) ` set rs"
      by (auto simp: list_ex_iff)
    then have "r k \<notin> (\<lambda>r. r k) ` set (drop_duplicates_last k rs)"
      by (simp add: drop_duplicates_last_keys)
    with False Cons.IH show ?thesis by simp
  qed
qed

lemma drop_duplicates_last_filter:
  assumes "filter (\<lambda>r. r k = i) rs \<noteq> []"
  shows "filter (\<lambda>r. r k = i) (drop_duplicates_last k rs) = [last (filter (\<lambda>r. r k = i) rs)]"
  using assms
proof (induction rs)
  case Nil
  then show ?case by simp
next
  case (Cons r rs)
  show ?case
  proof (cases "filter (\<lambda>r. r k = i) rs = []")
    case True
    with Cons.prems have ri: "r k = i" by (auto split: if_splits)
    from True have none: "\<forall>r' \<in> set rs. r' k \<noteq> i"
      by (simp add: filter_empty_conv)
    with ri have nodup: "\<not> list_ex (\<lambda>r'. r' k = r k) rs"
      by (simp add: list_ex_iff)
    from none drop_duplicates_last_subset [of k rs]
    have "filter (\<lambda>r. r k = i) (drop_duplicates_last k rs) = []"
      by (auto simp: filter_empty_conv)
    with True ri nodup show ?thesis by simp
  next
    case False
    then have IH: "filter (\<lambda>r. r k = i) (drop_duplicates_last k rs)
        = [last (filter (\<lambda>r. r k = i) rs)]"
      by (rule Cons.IH)
    show ?thesis
    proof (cases "r k = i")
      case True
      from False obtain r' where "r' \<in> set rs" "r' k = i"
        by (auto simp: filter_empty_conv)
      with True have "list_ex (\<lambda>r'. r' k = r k) rs"
        by (auto simp: list_ex_iff)
      with True False IH show ?thesis by simp
    next
      case ni: False
      with False IH show ?thesis by simp
    qed
  qed
qed



lemma merge_block_with_id:
  assumes "len existing \<noteq> 0" and "''id'' \<in> set (columns existing)"
  shows "rows (merge_block existing new_gdf)
    = drop_duplicates_last ''id'' (rows existing @ rows new_gdf)"
  using assms by (simp add: merge_block_def drop_duplicates_def concat_frames_def)

text \<open>
  What the merge guarantees. When the stored dataset has an id column and an id occurs
  both in it and in the newly fetched dataset, the merged output holds exactly one
  record with that id, and it is the last newly fetched record with that id. The ids of
  the merged output are pairwise different when the stored dataset is non-empty and has
  an id column (the deduplication then covers the whole concatenation, repeats inside
  the fetch included), or when the ids of the newly fetched dataset are pairwise
  different.
\<close>

lemma merge_block_newest_wins:
  "(''id'' \<in> set (columns existing) \<and> i \<in> set (ids existing) \<and> i \<in> set (ids new_gdf)
      \<longrightarrow> with_id i (merge_block existing new_gdf) = [last (with_id i new_gdf)])
   \<and> ((len existing \<noteq> 0 \<and> ''id'' \<in> set (columns existing)) \<or> distinct (ids new_gdf)
      \<longrightarrow> distinct (ids (merge_block existing new_gdf)))"
proof (intro conjI impI)
  assume h: "''id'' \<in> set (columns existing) \<and> i \<in> set (ids existing) \<and> i \<in> set (ids new_gdf)"
  then have ne: "len existing \<noteq> 0"
    by (auto simp: ids_def len_def)
  from h have new_ne: "filter (\<lambda>r. r ''id'' = i) (rows new_gdf) \<noteq> []"
    by (auto simp: ids_def filter_empty_conv)
  then have all_ne: "filter (\<lambda>r. r ''id'' = i) (rows existing @ rows new_gdf) \<noteq> []"
    by simp
  have "with_id i (merge_block existing new_gdf)
      = [last (filter (\<lambda>r. r ''id'' = i) (rows existing @ rows new_gdf))]"
    using h ne drop_duplicates_last_filter [OF all_ne]
    by (simp add: with_id_def merge_block_with_id)
  also have "last (filter (\<lambda>r. r ''id'' = i) (rows existing @ rows new_gdf))
      = last (with_id i new_gdf)"
    using new_ne by (simp add: with_id_def)
  finally show "with_id i (merge_block existing new_gdf) = [last (with_id i new_gdf)]" .
next
  assume "(len existing \<noteq> 0 \<and> ''id'' \<in> set (columns existing)) \<or> distinct (ids new_gdf)"
  then show "distinct (ids (merge_block existing new_gdf))"
  proof
    assume "len existing \<noteq> 0 \<and> ''id'' \<in> set (columns existing)"
    then show ?thesis
      by (simp add: ids_def merge_block_with_id drop_duplicates_last_distinct)
  next
    assume d: "distinct (ids new_gdf)"
    show ?thesis
    proof (cases "len existing \<noteq> 0 \<and> ''id'' \<in> set (columns existing)")
      case True
      then show ?thesis
        by (simp add: ids_def merge_block_with_id drop_duplicates_last_distinct)
    next
      case False
      then have "merge_block existing new_gdf = new_gdf"
        by (auto simp: merge_block_def)
      with d show ?thesis by simp
    qed
  qed
qed

lemma merge_block_newest_wins_example:
  "(''id'' \<in> set (columns ex_existing) \<and> Num 1 \<in> set (ids ex_existing) \<and> Num 1 \<in> set (ids ex_new))
   \<and> (len ex_existing \<noteq> 0 \<and> ''id'' \<in> set (columns ex_existing))
   \<and> with_id (Num 1) (merge_block ex_existing ex_new) = [dict_get fetched_1]
   \<and> distinct (ids (merge_block ex_existing ex_new))"
  using merge_block_newest_wins [of ex_existing "Num 1" ex_new]
  by (simp add: ex_existing_def ex_new_def ids_def with_id_def len_def
      stored_1_def fetched_1_def fetched_2_def dict_get_def)

text \<open>
  Claim C1 fails on the code. The script merges \<^verbatim>\<open>by unique id\<close> and means to
  \<^verbatim>\<open>Ensure 'id' is present and unique\<close>, and the path for a stored dataset with an id
  column removes every repeated id, also one repeated inside the fetch. The path for an
  empty store skips the deduplication: the fetched dataset is the output as it is, and
  an activity fetched twice is there twice.
\<close>

theorem merge_block_first_sync_counterexample:
  "len empty_gdf = 0
   \<and> \<not> distinct (ids (merge_block empty_gdf ex_twice))
   \<and> len ex_existing \<noteq> 0
   \<and> distinct (ids (merge_block ex_existing ex_twice))"
  by (simp add: merge_block_def empty_gdf_def len_def ex_twice_def ex_existing_def ids_def
      drop_duplicates_def concat_frames_def stored_1_def fetched_1_def dict_get_def)

text \<open>
  Scenario A of the specification: the stored record 1 is replaced by the fetched one
  (five kudos), record 2 is added.
\<close>

lemma scenario_A:
  "map (\<lambda>r. (r ''id'', r ''kudos_count'')) (rows (merge_block ex_existing ex_new))
     = [(Num 1, Num 5), (Num 2, Null)]"
  by (simp add: merge_block_def len_def ex_existing_def ex_new_def drop_duplicates_def
      concat_frames_def stored_1_def fetched_1_def fetched_2_def dict_get_def)

text \<open>
  Claim C5, as amended. The id of every record of a stored dataset that has an id column
  is the id of some record of the merged output, whatever was fetched.
\<close>

theorem merge_block_keeps_ids:
  assumes "''id'' \<in> set (columns existing)" and "r \<in> set (rows existing)"
  shows "r ''id'' \<in> set (ids (merge_block existing new_gdf))"
proof -
  from assms(2) have ne: "len existing \<noteq> 0"
    by (auto simp: len_def)
  have "set (ids (merge_block existing new_gdf))
      = (\<lambda>r. r ''id'') ` set (rows existing @ rows new_gdf)"
    using ne assms(1) by (simp add: ids_def merge_block_with_id drop_duplicates_last_keys)
  with assms(2) show ?thesis by auto
qed

theorem merge_block_keeps_ids_witness:
  "''id'' \<in> set (columns ex_existing) \<and> dict_get stored_1 \<in> set (rows ex_existing)
   \<and> Num 1 \<in> set (ids (merge_block ex_existing \<lparr>columns = [''id'', ''geometry''], rows = [dict_get fetched_2]\<rparr>))"
  using merge_block_keeps_ids [of ex_existing "dict_get stored_1"
      "\<lparr>columns = [''id'', ''geometry''], rows = [dict_get fetched_2]\<rparr>"]
  by (simp add: ex_existing_def stored_1_def dict_get_def)

text \<open>
  Claim C5 as stated fails for a stored dataset without an id column: the merge
  discards it. The stored record is in no way part of the output, which is the fetched
  dataset alone.
\<close>

theorem merge_block_drops_store_without_id_counterexample:
  "dict_get stored_no_id \<in> set (rows ex_no_id)
   \<and> dict_get stored_no_id ''id'' \<notin> set (ids (merge_block ex_no_id ex_new))
   \<and> rows (merge_block ex_no_id ex_new) = rows ex_new"
  by (simp add: merge_block_def ex_no_id_def len_def ex_new_def ids_def stored_no_id_def
      fetched_1_def fetched_2_def dict_get_def)

text \<open>
  Claim C10. A non-empty stored dataset without an id column is discarded by the merge:
  the output is the newly fetched dataset, with no deduplication applied to it.
\<close>

theorem merge_block_without_id_column:
  assumes "len existing \<noteq> 0" and "''id'' \<notin> set (columns existing)"
  shows "merge_block existing new_gdf = new_gdf"
  using assms by (simp add: merge_block_def)

theorem merge_block_without_id_column_witness:
  "len ex_no_id \<noteq> 0 \<and> ''id'' \<notin> set (columns ex_no_id)
   \<and> merge_block ex_no_id ex_twice = ex_twice
   \<and> \<not> distinct (ids (merge_block ex_no_id ex_twice))"
  using merge_block_without_id_column [of ex_no_id ex_twice]
  by (simp add: ex_no_id_def len_def ex_twice_def ids_def)

section \<open>Properties of the cutoff and of loading\<close>

lemma fold_later_timestamp:
  "timestamp (fold later ts t) = fold max (map timestamp ts) (timestamp t)"
proof (induction ts arbitrary: t)
  case Nil
  show ?case by simp
next
  case (Cons a ts)
  have "timestamp (later a t) = max (timestamp a) (timestamp t)"
    by (simp add: later_def max_def)
  with Cons.IH [of "later a t"] show ?case by simp
qed

lemma series_max_Some:
  assumes "List.map_filter (\<lambda>d. d) ds = t # ts"
  shows "\<exists>m. series_max ds = Some m \<and> timestamp m = Max (set (map timestamp (t # ts)))"
proof -
  have "timestamp (fold later ts t) = Max (set (timestamp t # map timestamp ts))"
    by (simp only: fold_later_timestamp Max.set_eq_fold)
  with assms show ?thesis by (simp add: series_max_def)
qed

lemma map_filter_id_map:
  "List.map_filter (\<lambda>d. d) (map f xs) = List.map_filter f xs"
  by (induction xs) (simp_all split: option.splits)

text \<open>
  Claim C2. With no stored record (an empty dataset, or no file at the path) the cutoff
  is unset. With stored records and a date column in which some date parses, the cutoff
  is the latest of the parsed dates as whole epoch seconds, minus 86400.
\<close>

theorem compute_after_ts_cutoff:
  "(len existing = 0 \<longrightarrow> compute_after_ts L existing = None)
   \<and> (files w GEOJSON_PATH = None
        \<longrightarrow> compute_after_ts L (load_existing_geojson w GEOJSON_PATH) = None)
   \<and> (len existing \<noteq> 0 \<and> ''date'' \<in> set (columns existing) \<and> parsed_dates L existing \<noteq> []
        \<longrightarrow> compute_after_ts L existing
             = Some (py_int (Max (set (parsed_dates L existing))) - 86400))"
proof (intro conjI impI)
  assume "len existing = 0"
  then show "compute_after_ts L existing = None"
    by (simp add: compute_after_ts_def)
next
  assume "files w GEOJSON_PATH = None"
  then show "compute_after_ts L (load_existing_geojson w GEOJSON_PATH) = None"
    by (simp add: compute_after_ts_def load_existing_geojson_def empty_gdf_def len_def)
next
  assume h: "len existing \<noteq> 0 \<and> ''date'' \<in> set (columns existing) \<and> parsed_dates L existing \<noteq> []"
  let ?ds = "map (to_datetime L) (column ''date'' existing)"
  from h obtain t ts where ts: "List.map_filter (\<lambda>d. d) ?ds = t # ts"
    by (cases "List.map_filter (to_datetime L) (column ''date'' existing)")
      (auto simp: parsed_dates_def map_filter_id_map)
  from series_max_Some [OF ts] obtain m
    where m: "series_max ?ds = Some m" "timestamp m = Max (set (map timestamp (t # ts)))"
    by blast
  from ts have "parsed_dates L existing = map timestamp (t # ts)"
    by (simp add: parsed_dates_def map_filter_id_map)
  with m h show "compute_after_ts L existing
      = Some (py_int (Max (set (parsed_dates L existing))) - 86400)"
    by (simp add: compute_after_ts_def)
qed

lemma ex_stored_parsed:
  "parsed_dates example_libs ex_stored = [1704153600, 1704067200]"
  by (simp add: parsed_dates_def ex_stored_def column_def example_libs_def
      example_to_datetime_def dict_get_def)

theorem compute_after_ts_cutoff_witness:
  "len empty_gdf = 0 \<and> compute_after_ts example_libs empty_gdf = None
   \<and> files ex_world_fresh GEOJSON_PATH = None
   \<and> compute_after_ts example_libs (load_existing_geojson ex_world_fresh GEOJSON_PATH) = None
   \<and> len ex_stored \<noteq> 0 \<and> ''date'' \<in> set (columns ex_stored)
   \<and> parsed_dates example_libs ex_stored \<noteq> []
   \<and> compute_after_ts example_libs ex_stored = Some 1704067200"
proof -
  have e: "len empty_gdf = 0"
    by (simp add: empty_gdf_def len_def)
  have f: "files ex_world_fresh GEOJSON_PATH = None"
    by (simp add: ex_world_fresh_def)
  have s: "len ex_stored \<noteq> 0 \<and> ''date'' \<in> set (columns ex_stored)
      \<and> parsed_dates example_libs ex_stored \<noteq> []"
    by (simp add: ex_stored_parsed) (simp add: ex_stored_def len_def)
  have m: "py_int (Max (set (parsed_dates example_libs ex_stored))) - 86400 = 1704067200"
    by (simp add: ex_stored_parsed py_int_def)
  from compute_after_ts_cutoff [of empty_gdf example_libs ex_world_fresh] e f
  have "compute_after_ts example_libs empty_gdf = None"
    and "compute_after_ts example_libs (load_existing_geojson ex_world_fresh GEOJSON_PATH) = None"
    by simp_all
  moreover from compute_after_ts_cutoff [of ex_stored example_libs ex_world_fresh] s m
  have "compute_after_ts example_libs ex_stored = Some 1704067200"
    by simp
  ultimately show ?thesis using e f s by simp
qed

text \<open>Stored records without a date that parses leave the cutoff unset as well.\<close>

lemma compute_after_ts_no_date:
  assumes "''date'' \<notin> set (columns existing) \<or> parsed_dates L existing = []"
  shows "compute_after_ts L existing = None"
proof (cases "len existing \<noteq> 0 \<and> ''date'' \<in> set (columns existing)")
  case True
  with assms have "List.map_filter (\<lambda>d. d) (map (to_datetime L) (column ''date'' existing)) = []"
    by (simp add: parsed_dates_def map_filter_id_map)
  with True show ?thesis
    by (simp add: compute_after_ts_def series_max_def)
next
  case False
  then show ?thesis by (auto simp: compute_after_ts_def)
qed

text \<open>
  Claim C7. When the path holds no file, or a file that cannot be read, loading returns
  the empty dataset (the exception of the reader is caught), and the cutoff computed
  from it is unset.
\<close>

theorem load_existing_geojson_recovers:
  assumes "files w path = None \<or> files w path = Some Unreadable"
  shows "load_existing_geojson w path = empty_gdf
    \<and> len (load_existing_geojson w path) = 0
    \<and> compute_after_ts L (load_existing_geojson w path) = None"
proof -
  from assms have "load_existing_geojson w path = empty_gdf"
    by (auto simp: load_existing_geojson_def read_file_def)
  then show ?thesis
    by (simp add: empty_gdf_def len_def compute_after_ts_def)
qed

theorem load_existing_geojson_recovers_witness:
  "(files ex_world_unreadable GEOJSON_PATH = None
      \<or> files ex_world_unreadable GEOJSON_PATH = Some Unreadable)
   \<and> load_existing_geojson ex_world_unreadable GEOJSON_PATH = empty_gdf
   \<and> len (load_existing_geojson ex_world_unreadable GEOJSON_PATH) = 0
   \<and> compute_after_ts example_libs (load_existing_geojson ex_world_unreadable GEOJSON_PATH) = None"
proof -
  have h: "files ex_world_unreadable GEOJSON_PATH = None
      \<or> files ex_world_unreadable GEOJSON_PATH = Some Unreadable"
    by (simp add: ex_world_unreadable_def)
  from load_existing_geojson_recovers [OF h, of example_libs] h show ?thesis
    by blast
qed

section \<open>Properties of the pagination loop\<close>

lemma fetch_pages_from:
  assumes full: "\<And>p. page \<le> p \<Longrightarrow> p < k \<Longrightarrow>
      \<exists>items. strava_get_activities R tok p PER_PAGE after_ts = Inr items
        \<and> PER_PAGE \<le> length items"
    and short: "strava_get_activities R tok k PER_PAGE after_ts = Inr last_items"
      "length last_items < PER_PAGE"
    and le: "page \<le> k"
  shows "fetch_pages R tok after_ts page acc
    = Some (Inr (acc @ concat (map (page_items R tok after_ts) [page..<k]) @ last_items))"
  using full le
proof (induction "k - page" arbitrary: page acc)
  case 0
  then have "page = k" by simp
  with short show ?case
    by (subst fetch_pages.simps) simp
next
  case (Suc n)
  then have lt: "page < k" by simp
  with Suc.prems(1) [of page] obtain items
    where items: "strava_get_activities R tok page PER_PAGE after_ts = Inr items"
      "PER_PAGE \<le> length items"
    by auto
  then have ne: "items \<noteq> []"
    by (auto simp: PER_PAGE_def)
  have n: "n = k - (page + 1)"
    using Suc.hyps(2) by simp
  have rest: "fetch_pages R tok after_ts (page + 1) (acc @ items)
      = Some (Inr ((acc @ items) @ concat (map (page_items R tok after_ts) [page + 1..<k])
          @ last_items))"
    using n
  proof (rule Suc.hyps(1))
    show "page + 1 \<le> k" using lt by simp
  next
    fix p
    assume "page + 1 \<le> p" "p < k"
    then show "\<exists>items. strava_get_activities R tok p PER_PAGE after_ts = Inr items
        \<and> PER_PAGE \<le> length items"
      using Suc.prems(1) [of p] by simp
  qed
  have "[page..<k] = page # [page + 1..<k]"
    using lt by (simp add: upt_conv_Cons)
  with items ne rest show ?case
    by (subst fetch_pages.simps) (simp add: page_items_def)
qed

text \<open>
  Claim C3. Let page \<open>k\<close> be the first page that is empty or shorter than the page
  size, every page before it being a successful full page. Then the loop returns, and
  its accumulator is the items of the pages before \<open>k\<close> in page order followed by the
  items of page \<open>k\<close>: nothing for an empty page, the items of a short page. No later
  page contributes.
\<close>

theorem fetch_pages_stops_at_first_short_page:
  assumes "1 \<le> k"
    and "\<forall>p. 1 \<le> p \<and> p < k \<longrightarrow>
      (\<exists>items. strava_get_activities R tok p PER_PAGE after_ts = Inr items
        \<and> PER_PAGE \<le> length items)"
    and "strava_get_activities R tok k PER_PAGE after_ts = Inr last_items"
    and "length last_items < PER_PAGE"
  shows "fetch_pages R tok after_ts 1 []
    = Some (Inr (concat (map (page_items R tok after_ts) [1..<k]) @ last_items))"
  using fetch_pages_from [of 1 k R tok after_ts last_items "[]"] assms by simp

theorem fetch_pages_stops_at_first_short_page_witness:
  "(1::nat) \<le> 2
   \<and> strava_get_activities ex_remote (Str ''a'') 1 PER_PAGE None
       = Inr (replicate 200 [(''id'', Num 1)])
   \<and> PER_PAGE \<le> length (replicate 200 [(''id'', Num 1) :: string \<times> val])
   \<and> strava_get_activities ex_remote (Str ''a'') 2 PER_PAGE None = Inr [[(''id'', Num 2)]]
   \<and> length [[(''id'', Num 2) :: string \<times> val]] < PER_PAGE
   \<and> fetch_pages ex_remote (Str ''a'') None 1 []
       = Some (Inr (replicate 200 [(''id'', Num 1)] @ [[(''id'', Num 2)]]))"
proof -
  have first: "strava_get_activities ex_remote (Str ''a'') 1 PER_PAGE None
       = Inr (replicate 200 [(''id'', Num 1)])"
    by (simp add: strava_get_activities_def ex_remote_def)
  have long: "PER_PAGE \<le> length (replicate 200 [(''id'', Num 1) :: string \<times> val])"
    by (simp add: PER_PAGE_def)
  have full: "\<forall>p. 1 \<le> p \<and> p < 2 \<longrightarrow>
        (\<exists>items. strava_get_activities ex_remote (Str ''a'') p PER_PAGE None = Inr items
          \<and> PER_PAGE \<le> length items)"
  proof (intro allI impI)
    fix p :: nat
    assume "1 \<le> p \<and> p < 2"
    then have "p = 1" by simp
    with first long
    show "\<exists>items. strava_get_activities ex_remote (Str ''a'') p PER_PAGE None = Inr items
          \<and> PER_PAGE \<le> length items"
      by blast
  qed
  have short: "strava_get_activities ex_remote (Str ''a'') 2 PER_PAGE None = Inr [[(''id'', Num 2)]]"
    by (simp add: strava_get_activities_def ex_remote_def)
  have len: "length [[(''id'', Num 2) :: string \<times> val]] < PER_PAGE"
    by (simp add: PER_PAGE_def)
  have one: "[Suc 0..<2] = [Suc 0]"
    by (simp add: upt_conv_Cons)
  have p1: "page_items ex_remote (Str ''a'') None (Suc 0) = replicate 200 [(''id'', Num 1)]"
    by (simp add: page_items_def strava_get_activities_def ex_remote_def)
  from fetch_pages_stops_at_first_short_page [OF _ full short len]
  have "fetch_pages ex_remote (Str ''a'') None 1 []
       = Some (Inr (replicate 200 [(''id'', Num 1)] @ [[(''id'', Num 2)]]))"
    by (simp add: one p1)
  with first long short len show ?thesis by simp
qed

text \<open>A page that fails ends the loop with the exception; nothing is returned.\<close>

lemma fetch_pages_fails:
  assumes "strava_get_activities R tok page PER_PAGE after_ts = Inl e"
  shows "fetch_pages R tok after_ts page acc = Some (Inl e)"
  using assms by (subst fetch_pages.simps) simp

section \<open>Properties of the write block\<close>

lemma paths_differ: "GEOJSON_PATH \<noteq> shp_path"
  by (simp add: GEOJSON_PATH_def shp_path_def DATA_DIR_def SHAPE_DIR_def SHAPE_BASENAME_def)

text \<open>
  Claim C6. With an empty combined dataset the write block leaves every file as it was
  and prints one informational line. With a non-empty one it writes the dataset to the
  GeoJSON path and its renamed copy to the shapefile path.
\<close>

theorem write_block_effect:
  "(len combined_gdf = 0 \<longrightarrow>
      files (write_block combined_gdf w) = files w
      \<and> stdout (write_block combined_gdf w) = stdout w @ [''[info] nothing to update''])
   \<and> (len combined_gdf \<noteq> 0 \<longrightarrow>
      files (write_block combined_gdf w)
        = (files w)(GEOJSON_PATH \<mapsto> Dataset combined_gdf,
                    shp_path \<mapsto> Dataset (shapefile_safe combined_gdf))
      \<and> files (write_block combined_gdf w) GEOJSON_PATH = Some (Dataset combined_gdf)
      \<and> files (write_block combined_gdf w) shp_path = Some (Dataset (shapefile_safe combined_gdf)))"
  using paths_differ by (simp add: write_block_def print_def to_file_def Let_def)

theorem write_block_effect_witness:
  "len empty_gdf = 0
   \<and> files (write_block empty_gdf ex_world_unreadable) = files ex_world_unreadable
   \<and> stdout (write_block empty_gdf ex_world_unreadable) = [''[info] nothing to update'']
   \<and> len ex_new \<noteq> 0
   \<and> files (write_block ex_new ex_world_unreadable) GEOJSON_PATH = Some (Dataset ex_new)
   \<and> files (write_block ex_new ex_world_unreadable) shp_path
       = Some (Dataset (shapefile_safe ex_new))"
proof -
  have e: "len empty_gdf = 0"
    by (simp add: empty_gdf_def len_def)
  have n: "len ex_new \<noteq> 0"
    by (simp add: ex_new_def len_def)
  have s: "stdout ex_world_unreadable = []"
    by (simp add: ex_world_unreadable_def)
  from write_block_effect [of empty_gdf ex_world_unreadable] e s
  have "files (write_block empty_gdf ex_world_unreadable) = files ex_world_unreadable
      \<and> stdout (write_block empty_gdf ex_world_unreadable) = [''[info] nothing to update'']"
    by simp
  moreover from write_block_effect [of ex_new ex_world_unreadable] n
  have "files (write_block ex_new ex_world_unreadable) GEOJSON_PATH = Some (Dataset ex_new)
      \<and> files (write_block ex_new ex_world_unreadable) shp_path
          = Some (Dataset (shapefile_safe ex_new))"
    by blast
  ultimately show ?thesis using e n by blast
qed

section \<open>Properties of the column normalizer\<close>

lemma len_set_column:
  "len (set_column c vs df) = min (len df) (length vs)"
  by (simp add: set_column_def len_def)

lemma nth_set_column:
  "length vs = len df \<Longrightarrow> i < len df \<Longrightarrow>
     rows (set_column c vs df) ! i = (rows df ! i)(c := vs ! i)"
  by (simp add: set_column_def len_def)

lemma columns_set_column:
  "set (columns (set_column c vs df)) = insert c (set (columns df))"
  by (auto simp: set_column_def)

lemma len_dumps_column:
  "len (dumps_column L c slim) = len slim"
  by (simp add: dumps_column_def len_set_column column_def) (simp add: len_def)

lemma cell_dumps_column:
  assumes "i < len slim" and "\<not> is_list_or_dict ((rows slim ! i) k)"
  shows "(rows (dumps_column L c slim) ! i) k = (rows slim ! i) k"
proof (cases "c \<noteq> ''map'' \<and> len slim \<noteq> 0 \<and> is_list_or_dict (hd (column c slim))")
  case True
  let ?vs = "map (\<lambda>x. if is_list_or_dict x then Str (json_dumps L x) else x) (column c slim)"
  have l: "length ?vs = len slim"
    by (simp add: column_def len_def)
  from True have "rows (dumps_column L c slim) ! i = (rows slim ! i)(c := ?vs ! i)"
    using nth_set_column [OF l assms(1)] by (simp add: dumps_column_def)
  moreover have "?vs ! i = (if is_list_or_dict ((rows slim ! i) c)
      then Str (json_dumps L ((rows slim ! i) c)) else (rows slim ! i) c)"
    using assms(1) by (simp add: column_def len_def)
  ultimately show ?thesis using assms(2) by auto
next
  case False
  then show ?thesis by (auto simp: dumps_column_def)
qed

lemma fold_dumps_column:
  assumes "i < len slim" and "\<not> is_list_or_dict ((rows slim ! i) k)"
  shows "len (fold (dumps_column L) cs slim) = len slim
    \<and> (rows (fold (dumps_column L) cs slim) ! i) k = (rows slim ! i) k"
  using assms
proof (induction cs arbitrary: slim)
  case Nil
  show ?case by simp
next
  case (Cons c cs)
  have "i < len (dumps_column L c slim)"
    using Cons.prems(1) by (simp add: len_dumps_column)
  moreover have "\<not> is_list_or_dict ((rows (dumps_column L c slim) ! i) k)"
    using Cons.prems by (simp add: cell_dumps_column)
  ultimately have "len (fold (dumps_column L) cs (dumps_column L c slim))
      = len (dumps_column L c slim)
    \<and> (rows (fold (dumps_column L) cs (dumps_column L c slim)) ! i) k
      = (rows (dumps_column L c slim) ! i) k"
    by (rule Cons.IH)
  with Cons.prems show ?case
    by (simp add: len_dumps_column cell_dumps_column)
qed

lemma expand_dates_row:
  assumes sd: "''start_date'' \<in> set (columns slim)" and i: "i < len slim"
  shows "len (expand_dates L slim) = len slim
    \<and> (rows (expand_dates L slim) ! i) ''date''
        = dt_date_astype_str L (to_datetime L ((rows slim ! i) ''start_date''))
    \<and> (rows (expand_dates L slim) ! i) ''year''
        = dt_year (to_datetime L ((rows slim ! i) ''start_date''))
    \<and> (rows (expand_dates L slim) ! i) ''month''
        = dt_month (to_datetime L ((rows slim ! i) ''start_date''))"
proof -
  let ?dt = "map (to_datetime L) (column ''start_date'' slim)"
  let ?s1 = "set_column ''date'' (map (dt_date_astype_str L) ?dt) slim"
  let ?s2 = "set_column ''year'' (map dt_year ?dt) ?s1"
  let ?s3 = "set_column ''month'' (map dt_month ?dt) ?s2"
  have lc: "length (column ''start_date'' slim) = len slim"
    by (simp add: column_def len_def)
  have ldt: "length ?dt = len slim"
    by (simp add: lc)
  have dti: "?dt ! i = to_datetime L ((rows slim ! i) ''start_date'')"
    using i by (simp add: column_def len_def)
  have l1: "len ?s1 = len slim"
    by (simp only: len_set_column length_map lc min.idem)
  have l2: "len ?s2 = len slim"
    by (simp only: len_set_column length_map lc l1 min.idem)
  have l3: "len ?s3 = len slim"
    by (simp only: len_set_column length_map lc l2 min.idem)
  have r1: "rows ?s1 ! i = (rows slim ! i)(''date'' := dt_date_astype_str L (?dt ! i))"
  proof -
    have "rows ?s1 ! i = (rows slim ! i)(''date'' := map (dt_date_astype_str L) ?dt ! i)"
      by (rule nth_set_column) (simp_all only: length_map lc i)
    then show ?thesis using i lc by simp
  qed
  have r2: "rows ?s2 ! i = (rows ?s1 ! i)(''year'' := dt_year (?dt ! i))"
  proof -
    have "rows ?s2 ! i = (rows ?s1 ! i)(''year'' := map dt_year ?dt ! i)"
      by (rule nth_set_column) (simp_all only: length_map lc l1 i)
    then show ?thesis using i lc by simp
  qed
  have r3: "rows ?s3 ! i = (rows ?s2 ! i)(''month'' := dt_month (?dt ! i))"
  proof -
    have "rows ?s3 ! i = (rows ?s2 ! i)(''month'' := map dt_month ?dt ! i)"
      by (rule nth_set_column) (simp_all only: length_map lc l2 i)
    then show ?thesis using i lc by simp
  qed
  have e: "expand_dates L slim = ?s3"
    using sd by (simp add: expand_dates_def Let_def)
  show ?thesis
    unfolding e by (simp only: l3 r3 r2 r1 dti) simp
qed

lemma missing_as_str_flat: "\<not> is_list_or_dict (missing_as_str L)"
  by (simp add: missing_as_str_def split: option.splits)

text \<open>
  Claim C8, as amended. For a record whose \<open>start_date\<close> does not parse, the
  normalized output has \<open>year\<close> and \<open>month\<close> missing, and \<open>date\<close> is what the
  conversion \<^verbatim>\<open>astype(str)\<close> makes of a missing date: the string \<^verbatim>\<open>"NaT"\<close> with pandas
  before 3.0, a missing value only from pandas 3.0 on.
\<close>

theorem tidy_columns_unparsable_date:
  assumes "''start_date'' \<in> set (columns df)" and "i < len df"
    and "to_datetime L ((rows df ! i) ''start_date'') = None"
  shows "len (tidy_columns L df) = len df
    \<and> (rows (tidy_columns L df) ! i) ''date'' = missing_as_str L
    \<and> (rows (tidy_columns L df) ! i) ''year'' = Null
    \<and> (rows (tidy_columns L df) ! i) ''month'' = Null"
proof -
  let ?cols = "filter (\<lambda>c. c \<in> set (columns df)) wanted"
  let ?slim = "select ?cols df"
  let ?exp = "expand_dates L ?slim"
  have sd: "''start_date'' \<in> set ?cols"
    using assms(1) by (simp add: wanted_def)
  then have sdc: "''start_date'' \<in> set (columns ?slim)"
    by (simp add: select_def)
  have ls: "len ?slim = len df"
    by (simp add: select_def len_def)
  have cell: "(rows ?slim ! i) ''start_date'' = (rows df ! i) ''start_date''"
    using assms(2) sd by (simp add: select_def len_def)
  from expand_dates_row [OF sdc, of i L] assms(2,3) ls cell
  have ex: "len ?exp = len df"
    "(rows ?exp ! i) ''date'' = missing_as_str L"
    "(rows ?exp ! i) ''year'' = Null"
    "(rows ?exp ! i) ''month'' = Null"
    by (simp_all add: dt_date_astype_str_def dt_year_def dt_month_def)
  have i: "i < len ?exp"
    using ex(1) assms(2) by simp
  have t: "tidy_columns L df = fold (dumps_column L) (columns ?exp) ?exp"
    by (simp add: tidy_columns_def Let_def)
  have "len (tidy_columns L df) = len ?exp"
    and "(rows (tidy_columns L df) ! i) ''date'' = (rows ?exp ! i) ''date''"
    and "(rows (tidy_columns L df) ! i) ''year'' = (rows ?exp ! i) ''year''"
    and "(rows (tidy_columns L df) ! i) ''month'' = (rows ?exp ! i) ''month''"
    unfolding t
    using fold_dumps_column [OF i, of "''date''" L "columns ?exp"]
      fold_dumps_column [OF i, of "''year''" L "columns ?exp"]
      fold_dumps_column [OF i, of "''month''" L "columns ?exp"] ex
      missing_as_str_flat [of L]
    by simp_all
  with ex show ?thesis by simp
qed

theorem tidy_columns_unparsable_date_witness:
  "''start_date'' \<in> set (columns (DataFrame [act_bad_date]))
   \<and> 0 < len (DataFrame [act_bad_date])
   \<and> to_datetime example_libs ((rows (DataFrame [act_bad_date]) ! 0) ''start_date'') = None
   \<and> (rows (tidy_columns example_libs (DataFrame [act_bad_date])) ! 0) ''date'' = Str ''NaT''
   \<and> (rows (tidy_columns example_libs (DataFrame [act_bad_date])) ! 0) ''year'' = Null
   \<and> (rows (tidy_columns example_libs (DataFrame [act_bad_date])) ! 0) ''month'' = Null"
proof -
  have c: "''start_date'' \<in> set (columns (DataFrame [act_bad_date]))"
    by (simp add: DataFrame_def act_bad_date_def)
  have l: "0 < len (DataFrame [act_bad_date])"
    by (simp add: DataFrame_def len_def)
  have p: "to_datetime example_libs ((rows (DataFrame [act_bad_date]) ! 0) ''start_date'') = None"
    by (simp add: DataFrame_def act_bad_date_def dict_get_def example_libs_def
        example_to_datetime_def)
  have m: "missing_as_str example_libs = Str ''NaT''"
    by (simp add: missing_as_str_def example_libs_def)
  from tidy_columns_unparsable_date [OF c l p] c l p show ?thesis
    unfolding m by blast
qed

text \<open>
  Claim C8 as stated fails for \<open>date\<close> with pandas before 3.0: the record with the
  start date \<^verbatim>\<open>"not a date"\<close> gets the date \<^verbatim>\<open>"NaT"\<close>, a string and no missing value.
\<close>

theorem tidy_columns_date_not_null_counterexample:
  "to_datetime example_libs (dict_get act_bad_date ''start_date'') = None
   \<and> (rows (tidy_columns example_libs (DataFrame [act_bad_date])) ! 0) ''date'' \<noteq> Null"
  by (simp add: tidy_columns_def DataFrame_def act_bad_date_def select_def wanted_def
      expand_dates_def set_column_def column_def dumps_column_def len_def dict_get_def
      example_libs_def example_to_datetime_def dt_date_astype_str_def missing_as_str_def dt_year_def
      dt_month_def Let_def)

section \<open>Properties of the geometry decoder and of the build\<close>

text \<open>A decoded geometry is either missing or a line of at least two points.\<close>

lemma decode_summary_polyline_result:
  assumes "decode_summary_polyline s = Inr v"
  shows "v = Null \<or> (\<exists>c. v = LineString c \<and> 2 \<le> length c)"
  using assms
  by (auto simp: decode_summary_polyline_def Let_def
      split: val.splits sum.splits if_splits)

text \<open>
  On a row whose \<open>map\<close> is a dict, a polyline that is absent, empty, or decodes to
  fewer than two points gives no geometry and no exception.
\<close>

lemma decode_summary_polyline_no_geometry:
  assumes "series_get s ''map'' (Dict []) = Dict m"
    and "dict_get m ''summary_polyline'' = Null \<or> dict_get m ''summary_polyline'' = Str []
      \<or> (\<exists>g c. dict_get m ''summary_polyline'' = Str g \<and> polyline_decode g = Inr c
            \<and> length c < 2)"
  shows "decode_summary_polyline s = Inr Null"
  using assms by (auto simp: decode_summary_polyline_def Let_def)

lemma map_result_Inr:
  assumes "map_result f xs = Inr ys"
  shows "length ys = length xs \<and> (\<forall>i < length xs. f (xs ! i) = Inr (ys ! i))"
  using assms
proof (induction xs arbitrary: ys)
  case Nil
  then show ?case by simp
next
  case (Cons x xs)
  from Cons.prems obtain y ys' where y: "f x = Inr y" and ys': "map_result f xs = Inr ys'"
    and ys: "ys = y # ys'"
    by (auto split: sum.splits)
  from Cons.IH [OF ys'] have IH: "length ys' = length xs"
    "\<forall>i < length xs. f (xs ! i) = Inr (ys' ! i)"
    by simp_all
  show ?case
  proof (intro conjI allI impI)
    show "length ys = length (x # xs)" using ys IH(1) by simp
  next
    fix i assume "i < length (x # xs)"
    then show "f ((x # xs) ! i) = Inr (ys ! i)"
      using y ys IH(2) by (cases i) simp_all
  qed
qed

text \<open>
  When the build returns, every record of its result carries a valid line of at least
  two points: records without geometry are not exported.
\<close>

lemma build_geodataframe_geometry:
  assumes "build_geodataframe L new_rows = Inr gdf" and "r \<in> set (rows gdf)"
  shows "\<exists>c. r ''geometry'' = LineString c \<and> 2 \<le> length c \<and> is_valid L c"
proof -
  let ?df = "tidy_columns L (DataFrame new_rows)"
  from assms(1) obtain geoms where geoms: "apply_rows decode_summary_polyline ?df = Inr geoms"
    by (auto simp: build_geodataframe_def Let_def split: sum.splits)
  let ?df' = "set_column ''geometry'' geoms ?df"
  let ?kept = "filter (\<lambda>r. r ''geometry'' \<noteq> Null \<and> geometry_ok L (r ''geometry'')) (rows ?df')"
  from assms(1) geoms have "rows gdf = ?kept \<or> rows gdf = map (\<lambda>r. r(''map'' := Null)) ?kept"
    by (auto simp: build_geodataframe_def Let_def drop_column_def split: if_splits)
  with assms(2) obtain r' where r': "r' \<in> set ?kept" and g: "r ''geometry'' = r' ''geometry''"
    by auto
  from r' have ok: "geometry_ok L (r' ''geometry'')" and mem: "r' \<in> set (rows ?df')"
    by simp_all
  from mem obtain r0 v where "(r0, v) \<in> set (zip (rows ?df) geoms)"
    and "r' = r0(''geometry'' := v)"
    by (auto simp: set_column_def)
  then have v: "r' ''geometry'' = v" and "v \<in> set geoms"
    by (auto dest: set_zip_rightD)
  then obtain i where i: "i < length geoms" "geoms ! i = v"
    by (auto simp: in_set_conv_nth)
  from map_result_Inr [OF geoms [unfolded apply_rows_def]] i
  have "decode_summary_polyline \<lparr>index = columns ?df, cell = rows ?df ! i\<rparr> = Inr v"
    by simp
  from decode_summary_polyline_result [OF this] ok v g show ?thesis
    by auto
qed

text \<open>What the column normalizer does to the column labels and to the \<open>map\<close> cells.\<close>

lemma columns_DataFrame:
  "set (columns (DataFrame ds)) = (\<Union>d \<in> set ds. fst ` set d)"
  by (auto simp: DataFrame_def)

lemma len_DataFrame: "len (DataFrame ds) = length ds"
  by (simp add: DataFrame_def len_def)

lemma columns_dumps_column:
  "c \<in> set (columns slim) \<Longrightarrow> columns (dumps_column L c slim) = columns slim"
  by (simp add: dumps_column_def set_column_def)

lemma columns_fold_dumps_column:
  "set cs \<subseteq> set (columns slim) \<Longrightarrow> columns (fold (dumps_column L) cs slim) = columns slim"
proof (induction cs arbitrary: slim)
  case Nil
  show ?case by simp
next
  case (Cons c cs)
  then have c: "columns (dumps_column L c slim) = columns slim"
    by (simp add: columns_dumps_column)
  with Cons.prems have "set cs \<subseteq> set (columns (dumps_column L c slim))"
    by simp
  then have "columns (fold (dumps_column L) cs (dumps_column L c slim))
      = columns (dumps_column L c slim)"
    by (rule Cons.IH)
  with c show ?case by simp
qed

lemma columns_expand_dates:
  "set (columns (expand_dates L slim)) \<subseteq> set (columns slim) \<union> {''date'', ''year'', ''month''}"
  by (auto simp: expand_dates_def Let_def set_column_def split: if_splits)

lemma columns_tidy_columns:
  "set (columns (tidy_columns L df))
    \<subseteq> (set wanted \<inter> set (columns df)) \<union> {''date'', ''year'', ''month''}"
proof -
  let ?slim = "expand_dates L (select (filter (\<lambda>c. c \<in> set (columns df)) wanted) df)"
  have "columns (tidy_columns L df) = columns ?slim"
    by (simp add: tidy_columns_def Let_def columns_fold_dumps_column)
  moreover have "set (columns ?slim)
      \<subseteq> set (columns (select (filter (\<lambda>c. c \<in> set (columns df)) wanted) df))
        \<union> {''date'', ''year'', ''month''}"
    by (rule columns_expand_dates)
  ultimately show ?thesis
    by (auto simp: select_def)
qed

lemma len_expand_dates: "len (expand_dates L slim) = len slim"
  by (simp add: expand_dates_def Let_def set_column_def len_def column_def)

lemma len_fold_dumps_column: "len (fold (dumps_column L) cs slim) = len slim"
  by (induction cs arbitrary: slim) (simp_all add: dumps_column_def set_column_def len_def column_def)

lemma len_tidy_columns: "len (tidy_columns L df) = len df"
  by (simp add: tidy_columns_def Let_def len_fold_dumps_column len_expand_dates)
    (simp add: select_def len_def)

lemma map_result_all:
  assumes "\<forall>x \<in> set xs. f x = Inr y"
  shows "map_result f xs = Inr (replicate (length xs) y)"
  using assms by (induction xs) simp_all

lemma decode_summary_polyline_no_map_column:
  assumes "''map'' \<notin> set (index s)"
  shows "decode_summary_polyline s = Inr Null"
  using assms by (simp add: decode_summary_polyline_def series_get_def dict_get_def)

text \<open>
  When no fetched activity has a \<open>map\<close> field, the frame has no such column, the
  default of \<^verbatim>\<open>activity.get("map", {})\<close> applies to every row, and the build returns
  the dataset without records.
\<close>

lemma build_geodataframe_no_map_column:
  assumes "\<forall>a \<in> set new_rows. ''map'' \<notin> fst ` set a"
  shows "\<exists>gdf. build_geodataframe L new_rows = Inr gdf \<and> rows gdf = []"
proof -
  let ?df = "tidy_columns L (DataFrame new_rows)"
  from assms have "''map'' \<notin> set (columns (DataFrame new_rows))"
    by (auto simp: columns_DataFrame)
  with columns_tidy_columns [of L "DataFrame new_rows"]
  have nm: "''map'' \<notin> set (columns ?df)"
    by auto
  then have "\<forall>r \<in> set (rows ?df).
      decode_summary_polyline \<lparr>index = columns ?df, cell = r\<rparr> = Inr Null"
    by (simp add: decode_summary_polyline_no_map_column)
  then have geoms: "apply_rows decode_summary_polyline ?df
      = Inr (replicate (length (rows ?df)) Null)"
    unfolding apply_rows_def by (rule map_result_all)
  let ?df' = "set_column ''geometry'' (replicate (length (rows ?df)) Null) ?df"
  have "\<forall>r \<in> set (rows ?df'). r ''geometry'' = Null"
    by (auto simp: set_column_def dest: set_zip_rightD)
  then have "filter (\<lambda>r. r ''geometry'' \<noteq> Null \<and> geometry_ok L (r ''geometry'')) (rows ?df') = []"
    by (simp add: filter_empty_conv)
  with geoms show ?thesis
    by (simp add: build_geodataframe_def Let_def drop_column_def)
qed


lemma map_cell_dumps_column:
  assumes "i < len slim"
  shows "(rows (dumps_column L c slim) ! i) ''map'' = (rows slim ! i) ''map''"
proof (cases "c \<noteq> ''map'' \<and> len slim \<noteq> 0 \<and> is_list_or_dict (hd (column c slim))")
  case True
  let ?vs = "map (\<lambda>x. if is_list_or_dict x then Str (json_dumps L x) else x) (column c slim)"
  have l: "length ?vs = len slim"
    by (simp add: column_def len_def)
  from True have "rows (dumps_column L c slim) ! i = (rows slim ! i)(c := ?vs ! i)"
    using nth_set_column [OF l assms] by (simp add: dumps_column_def)
  with True show ?thesis by auto
next
  case False
  then show ?thesis by (auto simp: dumps_column_def)
qed

lemma map_cell_fold_dumps_column:
  assumes "i < len slim"
  shows "(rows (fold (dumps_column L) cs slim) ! i) ''map'' = (rows slim ! i) ''map''"
  using assms
proof (induction cs arbitrary: slim)
  case Nil
  show ?case by simp
next
  case (Cons c cs)
  have l: "len (dumps_column L c slim) = len slim"
    by (simp add: dumps_column_def set_column_def len_def column_def)
  with Cons.prems have "i < len (dumps_column L c slim)" by simp
  then have "(rows (fold (dumps_column L) cs (dumps_column L c slim)) ! i) ''map''
      = (rows (dumps_column L c slim) ! i) ''map''"
    by (rule Cons.IH)
  with Cons.prems show ?case
    by (simp add: map_cell_dumps_column)
qed

lemma map_cell_expand_dates:
  assumes "i < len slim"
  shows "(rows (expand_dates L slim) ! i) ''map'' = (rows slim ! i) ''map''"
  using assms
  by (simp add: expand_dates_def Let_def set_column_def len_def column_def)

lemma map_cell_tidy_columns:
  assumes "''map'' \<in> set (columns df)" and "i < len df"
  shows "''map'' \<in> set (columns (tidy_columns L df))
    \<and> (rows (tidy_columns L df) ! i) ''map'' = (rows df ! i) ''map''"
proof -
  let ?cols = "filter (\<lambda>c. c \<in> set (columns df)) wanted"
  let ?slim = "select ?cols df"
  let ?exp = "expand_dates L ?slim"
  have m: "''map'' \<in> set ?cols"
    using assms(1) by (simp add: wanted_def)
  have ls: "len ?slim = len df"
    by (simp add: select_def len_def)
  have c1: "(rows ?slim ! i) ''map'' = (rows df ! i) ''map''"
    using assms(2) m by (simp add: select_def len_def)
  have c2: "(rows ?exp ! i) ''map'' = (rows ?slim ! i) ''map''"
    using assms(2) ls by (simp add: map_cell_expand_dates)
  have le: "len ?exp = len df"
    using ls by (simp add: len_expand_dates)
  have t: "tidy_columns L df = fold (dumps_column L) (columns ?exp) ?exp"
    by (simp add: tidy_columns_def Let_def)
  have c3: "(rows (tidy_columns L df) ! i) ''map'' = (rows ?exp ! i) ''map''"
    unfolding t using assms(2) le by (simp add: map_cell_fold_dumps_column)
  have "''map'' \<in> set (columns ?exp)"
    using m by (auto simp: expand_dates_def Let_def set_column_def select_def)
  then have "''map'' \<in> set (columns (tidy_columns L df))"
    unfolding t by (simp add: columns_fold_dumps_column)
  with c1 c2 c3 show ?thesis by simp
qed

lemma map_result_returns:
  assumes "\<forall>x \<in> set xs. \<exists>y. f x = Inr y"
  shows "\<exists>ys. map_result f xs = Inr ys"
  using assms by (induction xs) auto

lemma decode_summary_polyline_returns:
  assumes "''map'' \<in> set (index s)" and "cell s ''map'' = Dict m"
    and "\<not> truthy (dict_get m ''summary_polyline'')
      \<or> (\<exists>g c. dict_get m ''summary_polyline'' = Str g \<and> polyline_decode g = Inr c)"
  shows "\<exists>v. decode_summary_polyline s = Inr v"
  using assms by (auto simp: decode_summary_polyline_def series_get_def Let_def)

text \<open>
  When every fetched activity has a dict as its \<open>map\<close>, and every polyline in it is
  absent, empty or a string that decodes, the build raises no exception.
\<close>

lemma build_geodataframe_returns:
  assumes "\<forall>a \<in> set new_rows. \<exists>m. dict_get a ''map'' = Dict m
      \<and> (\<not> truthy (dict_get m ''summary_polyline'')
          \<or> (\<exists>g c. dict_get m ''summary_polyline'' = Str g \<and> polyline_decode g = Inr c))"
  shows "\<exists>gdf. build_geodataframe L new_rows = Inr gdf"
proof -
  let ?raw = "DataFrame new_rows"
  let ?df = "tidy_columns L ?raw"
  have "\<exists>v. decode_summary_polyline \<lparr>index = columns ?df, cell = r\<rparr> = Inr v"
    if r: "r \<in> set (rows ?df)" for r
  proof -
    from r obtain i where i: "i < length (rows ?df)" and ri: "rows ?df ! i = r"
      by (auto simp: in_set_conv_nth)
    from i have i0: "i < len ?raw"
      using len_tidy_columns [of L ?raw] by (simp add: len_def)
    then have il: "i < length new_rows"
      by (simp add: len_DataFrame)
    then have a: "new_rows ! i \<in> set new_rows" by simp
    with assms obtain m where m: "dict_get (new_rows ! i) ''map'' = Dict m"
      and ok: "\<not> truthy (dict_get m ''summary_polyline'')
          \<or> (\<exists>g c. dict_get m ''summary_polyline'' = Str g \<and> polyline_decode g = Inr c)"
      by blast
    from m have "map_of (new_rows ! i) ''map'' \<noteq> None"
      by (auto simp: dict_get_def split: option.splits)
    then have "''map'' \<in> fst ` set (new_rows ! i)"
      by (auto simp: map_of_eq_None_iff)
    with a have col: "''map'' \<in> set (columns ?raw)"
      by (auto simp: columns_DataFrame)
    have "(rows ?raw ! i) ''map'' = Dict m"
      using il m by (simp add: DataFrame_def)
    with map_cell_tidy_columns [OF col i0, of L] ri
    have "''map'' \<in> set (columns ?df)" and "r ''map'' = Dict m"
      by simp_all
    with ok show ?thesis
      by (intro decode_summary_polyline_returns [where m = m]) simp_all
  qed
  then have "\<exists>geoms. apply_rows decode_summary_polyline ?df = Inr geoms"
    unfolding apply_rows_def by (intro map_result_returns) blast
  then show ?thesis
    by (auto simp: build_geodataframe_def Let_def)
qed


text \<open>
  Claim C4 fails on the code. An activity without a \<open>map\<close> field, fetched together
  with one that has it, is a row whose \<open>map\<close> cell is missing; the default of
  \<^verbatim>\<open>activity.get("map", {})\<close> does not apply to it, and the second \<^verbatim>\<open>.get\<close> raises
  \<^verbatim>\<open>AttributeError\<close>, which ends the run.
\<close>

theorem build_geodataframe_missing_map_raises:
  "build_geodataframe example_libs [act_with_map, act_without_map] = Inl AttributeError"
  by (simp add: build_geodataframe_def DataFrame_def tidy_columns_def select_def wanted_def
      expand_dates_def set_column_def column_def dumps_column_def len_def dict_get_def
      example_libs_def example_to_datetime_def dt_date_astype_str_def missing_as_str_def dt_year_def
      dt_month_def Let_def act_with_map_def act_without_map_def apply_rows_def
      decode_summary_polyline_def series_get_def polyline_decode_def decode_loop.simps
      trans_def factor_def)

text \<open>
  Scenario B of the specification holds when no fetched activity has a \<open>map\<close> field:
  the build returns and the record is not exported.
\<close>

lemma scenario_B:
  "\<exists>gdf. build_geodataframe example_libs [act_without_map] = Inr gdf \<and> rows gdf = []"
  by (simp add: build_geodataframe_def DataFrame_def tidy_columns_def select_def wanted_def
      expand_dates_def set_column_def column_def dumps_column_def len_def dict_get_def
      example_libs_def example_to_datetime_def dt_date_astype_str_def missing_as_str_def dt_year_def
      dt_month_def Let_def act_with_map_def act_without_map_def apply_rows_def
      decode_summary_polyline_def series_get_def)

section \<open>The polyline round trip\<close>

text \<open>Bit arithmetic of one 5-bit chunk.\<close>

lemma chunk_low: "(32 OR (n AND 31)) AND 31 = n AND (31::int)"
  by (simp add: bit.conj_disj_distrib2 and.assoc)

lemma and31: "n AND 31 = take_bit 5 (n::int)"
  by (simp add: take_bit_eq_mask mask_eq_exp_minus_1)

lemma chunk_bounds: "32 \<le> (32 OR (n AND 31)) \<and> (32 OR (n AND (31::int))) < 64"
proof
  have "0 \<le> n AND (31::int)" by (simp add: and31)
  then show "32 \<le> (32 OR (n AND (31::int)))" by (rule or_greater_eq)
  have "n AND 31 < (2::int) ^ 6" using take_bit_int_less_exp [of 5 n] by (simp add: and31)
  then have "(32 OR (n AND (31::int))) < 2 ^ 6"
    by (intro OR_upper) simp_all
  then show "(32 OR (n AND (31::int))) < 64" by simp
qed

lemma split5: "(n AND 31) OR push_bit 5 (drop_bit 5 n) = (n::int)"
proof (rule bit_eqI)
  fix k
  show "bit ((n AND 31) OR push_bit 5 (drop_bit 5 n)) k = bit n k"
    by (cases "k < 5") (auto simp: and31 bit_simps)
qed

lemma small_and: "0 \<le> n \<Longrightarrow> n < 32 \<Longrightarrow> n AND 31 = (n::int)"
  by (simp add: and31 take_bit_int_eq_self)


lemma of_char_chunk:
  assumes "0 \<le> b" and "b < (64::int)"
  shows "(of_char (char_of (b + 63)) :: int) - 63 = b"
proof -
  have "(b + 63) mod 256 = b + 63"
    using assms by simp
  then show ?thesis by simp
qed

text \<open>Reading the chunks of a non-negative number gives the number back.\<close>

lemma trans_loop_write_chunks:
  assumes "0 \<le> n"
  shows "trans_loop (write_chunks n @ rest) acc shift
    = Inr ((if (acc OR push_bit shift n) AND 1 \<noteq> 0
            then NOT (drop_bit 1 (acc OR push_bit shift n))
            else drop_bit 1 (acc OR push_bit shift n)), rest)"
  using assms
proof (induction n arbitrary: acc shift rule: write_chunks.induct)
  case (1 coord)
  show ?case
  proof (cases "coord \<ge> 32")
    case True
    let ?b = "32 OR (coord AND 31)"
    have b: "(of_char (char_of (?b + 63)) :: int) - 63 = ?b"
      using chunk_bounds [of coord] by (intro of_char_chunk) simp_all
    have nn: "0 \<le> drop_bit 5 coord"
      using "1.prems" by simp
    have IH: "trans_loop (write_chunks (drop_bit 5 coord) @ rest)
        (acc OR push_bit shift (coord AND 31)) (shift + 5)
      = Inr ((if ((acc OR push_bit shift (coord AND 31)) OR push_bit (shift + 5) (drop_bit 5 coord)) AND 1 \<noteq> 0
            then NOT (drop_bit 1 ((acc OR push_bit shift (coord AND 31)) OR push_bit (shift + 5) (drop_bit 5 coord)))
            else drop_bit 1 ((acc OR push_bit shift (coord AND 31)) OR push_bit (shift + 5) (drop_bit 5 coord))), rest)"
      using True nn by (rule "1.IH")
    have join: "(acc OR push_bit shift (coord AND 31)) OR push_bit (shift + 5) (drop_bit 5 coord)
        = acc OR push_bit shift coord"
    proof -
      have "push_bit (shift + 5) (drop_bit 5 coord) = push_bit shift (push_bit 5 (drop_bit 5 coord))"
        by (simp add: push_bit_add add.commute)
      then have "(acc OR push_bit shift (coord AND 31)) OR push_bit (shift + 5) (drop_bit 5 coord)
          = acc OR push_bit shift ((coord AND 31) OR push_bit 5 (drop_bit 5 coord))"
        by (simp add: or.assoc)
      then show ?thesis by (simp only: split5)
    qed
    have unfold: "write_chunks coord = char_of (?b + 63) # write_chunks (drop_bit 5 coord)"
      using True by (subst write_chunks.simps) simp
    have step: "trans_loop (write_chunks coord @ rest) acc shift
        = trans_loop (write_chunks (drop_bit 5 coord) @ rest)
            (acc OR push_bit shift (coord AND 31)) (shift + 5)"
      using chunk_bounds [of coord]
      by (simp only: unfold append_Cons trans_loop.simps Let_def b chunk_low) simp
    show ?thesis
      by (simp only: step IH join)
  next
    case False
    with "1.prems" have small: "0 \<le> coord" "coord < 32" by simp_all
    have b: "(of_char (char_of (coord + 63)) :: int) - 63 = coord"
      using small by (intro of_char_chunk) simp_all
    have unfold: "write_chunks coord = [char_of (coord + 63)]"
      using False by (subst write_chunks.simps) simp
    show ?thesis
      using small
      by (simp only: unfold append_Cons append_Nil trans_loop.simps Let_def b small_and)
        simp
  qed
qed

lemma write_chunks_nonempty: "write_chunks n \<noteq> []"
  by (subst write_chunks.simps) simp

text \<open>The sign folding of the encoder is undone by the decoder.\<close>

lemma unzigzag_zigzag:
  fixes d :: int
  defines "n \<equiv> (if push_bit 1 d \<ge> 0 then push_bit 1 d else NOT (push_bit 1 d))"
  shows "0 \<le> n \<and> (if n AND 1 \<noteq> 0 then NOT (drop_bit 1 n) else drop_bit 1 n) = d"
proof (cases "0 \<le> d")
  case True
  then have "n = 2 * d" by (simp add: n_def push_bit_eq_mult)
  with True show ?thesis
    by (simp add: and_one_eq drop_bit_eq_div)
next
  case False
  then have n: "n = - 2 * d - 1" by (simp add: n_def push_bit_eq_mult not_int_def)
  have "n mod 2 = 1" unfolding n by presburger
  moreover have "n div 2 = - d - 1" unfolding n by presburger
  ultimately show ?thesis using False n
    by (simp add: and_one_eq drop_bit_eq_div not_int_def)
qed


text \<open>Reading a written value gives the rounded delta and the rest of the string.\<close>

lemma trans_write_value:
  "trans (write_value cur prev @ rest)
    = Inr (py2_round (cur * factor) - py2_round (prev * factor), rest)"
proof -
  let ?d = "py2_round (cur * factor) - py2_round (prev * factor)"
  let ?n = "(if push_bit 1 ?d \<ge> 0 then push_bit 1 ?d else NOT (push_bit 1 ?d))"
  from unzigzag_zigzag [of ?d]
  have n: "0 \<le> ?n" and unz: "(if ?n AND 1 \<noteq> 0 then NOT (drop_bit 1 ?n) else drop_bit 1 ?n) = ?d"
    by simp_all
  have w: "write_value cur prev = write_chunks ?n"
    by (simp add: write_value_def Let_def)
  have "trans (write_value cur prev @ rest)
      = Inr ((if (0 OR push_bit 0 ?n) AND 1 \<noteq> 0
            then NOT (drop_bit 1 (0 OR push_bit 0 ?n))
            else drop_bit 1 (0 OR push_bit 0 ?n)), rest)"
    unfolding trans_def w using n by (rule trans_loop_write_chunks)
  also have "0 OR push_bit 0 ?n = ?n" by simp
  finally show ?thesis by (simp only: unz)
qed

lemma write_value_nonempty: "write_value cur prev \<noteq> []"
  by (simp add: write_value_def Let_def write_chunks_nonempty)

lemma py2_round_int: "py2_round (of_int n) = n"
proof -
  have h: "\<lfloor>(of_int m :: rat) + 1 / 2\<rfloor> = m" for m :: int
    by (rule floor_unique) simp_all
  have "\<bar>of_int n :: rat\<bar> = of_int \<bar>n\<bar>" by simp
  then have f: "\<lfloor>\<bar>of_int n :: rat\<bar> + 1 / 2\<rfloor> = \<bar>n\<bar>"
    by (simp only: h)
  show ?thesis unfolding py2_round_def f by simp
qed

lemma py2_round_numeral:
  "py2_round (numeral k) = numeral k" "py2_round (- numeral k) = - numeral k"
  using py2_round_int [of "numeral k"] py2_round_int [of "- numeral k"] by simp_all

lemma factor_nonzero: "factor \<noteq> 0"
  by (simp add: factor_def)

lemma py2_round_zero: "py2_round 0 = 0"
  by (simp add: py2_round_def floor_eq_iff)

lemma polyline_encode_Cons:
  "polyline_encode (c0 # cs)
    = Inr (concat (map (\<lambda>(p, c). write_pair p c) (zip ((0, 0) # c0 # cs) (c0 # cs))))"
proof -
  have "(\<lambda>(prev, cur). write_value (fst cur) (fst prev) @ write_value (snd cur) (snd prev))
      = (\<lambda>(p, c). write_pair p c)"
    by (simp add: write_pair_def fun_eq_iff)
  then show ?thesis
    by (simp add: polyline_encode_def pairwise_list_def write_pair_def)
qed

lemma decode_loop_written:
  "decode_loop (concat (map (\<lambda>(p, c). write_pair p c) (zip (p0 # cs) cs)))
      (py2_round (fst p0 * factor)) (py2_round (snd p0 * factor)) acc
    = Inr (acc @ map round5 cs)"
proof (induction cs arbitrary: p0 acc)
  case Nil
  show ?case by (subst decode_loop.simps) simp
next
  case (Cons c cs)
  let ?rest = "concat (map (\<lambda>(p, c). write_pair p c) (zip (c # cs) cs))"
  let ?s = "write_value (fst c) (fst p0) @ write_value (snd c) (snd p0) @ ?rest"
  have s: "concat (map (\<lambda>(p, c). write_pair p c) (zip (p0 # c # cs) (c # cs))) = ?s"
    by (simp add: write_pair_def)
  have ne: "?s \<noteq> []"
    by (simp add: write_value_nonempty)
  have t1: "trans ?s = Inr (py2_round (fst c * factor) - py2_round (fst p0 * factor),
      write_value (snd c) (snd p0) @ ?rest)"
    by (rule trans_write_value)
  have t2: "trans (write_value (snd c) (snd p0) @ ?rest)
      = Inr (py2_round (snd c * factor) - py2_round (snd p0 * factor), ?rest)"
    by (rule trans_write_value)
  have "decode_loop ?s (py2_round (fst p0 * factor)) (py2_round (snd p0 * factor)) acc
      = decode_loop ?rest (py2_round (fst c * factor)) (py2_round (snd c * factor))
          (acc @ [round5 c])"
    by (subst decode_loop.simps)
      (simp only: ne if_False t1 t2 sum.case prod.case round5_def add_diff_cancel_left'
        add.commute [of "py2_round (fst p0 * factor)"] add.commute [of "py2_round (snd p0 * factor)"]
        diff_add_cancel)
  also have "\<dots> = Inr ((acc @ [round5 c]) @ map round5 cs)"
    by (rule Cons.IH)
  finally show ?case
    by (simp only: s) simp
qed

text \<open>Decoding an encoding gives the points, rounded to five decimals.\<close>

lemma polyline_decode_encode:
  assumes "polyline_encode cs = Inr s"
  shows "polyline_decode s = Inr (map round5 cs)"
proof (cases cs)
  case Nil
  with assms show ?thesis by (simp add: polyline_encode_def)
next
  case (Cons c0 cs')
  with assms have s: "s = concat (map (\<lambda>(p, c). write_pair p c) (zip ((0, 0) # cs) cs))"
    by (simp add: polyline_encode_Cons)
  from decode_loop_written [of "(0, 0)" cs "[]"]
  show ?thesis
    by (simp add: polyline_decode_def s py2_round_zero)
qed

lemma write_value_cong:
  assumes "py2_round (a * factor) = py2_round (a' * factor)"
    and "py2_round (b * factor) = py2_round (b' * factor)"
  shows "write_value a b = write_value a' b'"
  using assms by (simp add: write_value_def)

lemma write_pair_round5:
  "write_pair (round5 p) (round5 c) = write_pair p c"
proof -
  have "write_value (fst (round5 c)) (fst (round5 p)) = write_value (fst c) (fst p)"
    by (rule write_value_cong) (simp_all add: round5_def py2_round_int factor_nonzero)
  moreover have "write_value (snd (round5 c)) (snd (round5 p)) = write_value (snd c) (snd p)"
    by (rule write_value_cong) (simp_all add: round5_def py2_round_int factor_nonzero)
  ultimately show ?thesis by (simp add: write_pair_def)
qed

lemma round5_zero: "round5 (0, 0) = (0, 0)"
  by (simp add: round5_def py2_round_zero)

text \<open>The encoder does not see the rounding.\<close>

lemma polyline_encode_round5:
  "polyline_encode (map round5 cs) = polyline_encode cs"
proof (cases cs)
  case Nil
  then show ?thesis by (simp add: polyline_encode_def)
next
  case (Cons c0 cs')
  have "zip ((0, 0) # map round5 cs) (map round5 cs)
      = map (\<lambda>(p, c). (round5 p, round5 c)) (zip ((0, 0) # cs) cs)"
    using zip_map_map [of round5 "(0, 0) # cs" round5 cs] by (simp add: round5_zero)
  then have "concat (map (\<lambda>(p, c). write_pair p c) (zip ((0, 0) # map round5 cs) (map round5 cs)))
      = concat (map (\<lambda>(p, c). write_pair p c) (zip ((0, 0) # cs) cs))"
    by (simp add: o_def split_def write_pair_round5)
  with Cons show ?thesis
    using polyline_encode_Cons [of "round5 c0" "map round5 cs'"] polyline_encode_Cons [of c0 cs']
    by simp
qed

text \<open>
  Claim C9. Let \<open>s\<close> be a valid encoded polyline, that is the encoding of some
  coordinate list, and let it decode to at least two points. Then encoding the decoded
  points gives \<open>s\<close> again, and the geometry decoder builds the line from the decoded
  (latitude, longitude) pairs swapped to (longitude, latitude).
\<close>

theorem polyline_roundtrip:
  assumes valid: "polyline_encode coords = Inr s"
    and decoded: "polyline_decode s = Inr pts" and two: "2 \<le> length pts"
    and cell: "series_get activity ''map'' (Dict []) = Dict m"
      "dict_get m ''summary_polyline'' = Str s"
  shows "polyline_encode pts = Inr s
    \<and> decode_summary_polyline activity = Inr (LineString (map (\<lambda>(lat, lon). (lon, lat)) pts))"
proof
  from polyline_decode_encode [OF valid] decoded have pts: "pts = map round5 coords"
    by simp
  with valid show "polyline_encode pts = Inr s"
    by (simp add: polyline_encode_round5)
  from two have "pts \<noteq> []" by auto
  with decoded have "s \<noteq> []"
    by (auto simp: polyline_decode_def decode_loop.simps)
  with cell decoded two
  show "decode_summary_polyline activity = Inr (LineString (map (\<lambda>(lat, lon). (lon, lat)) pts))"
    by (simp add: decode_summary_polyline_def)
qed

text \<open>The example polyline encodes the two example points.\<close>

lemma ex_encode: "polyline_encode ex_coords = Inr ''_p~iF~ps|U_ulLnnqC''"
  by (simp add: polyline_encode_def ex_coords_def pairwise_list_def write_value_def
      py2_round_numeral py2_round_zero factor_def write_chunks.simps char_of_def)


lemma ex_decode: "polyline_decode ''_p~iF~ps|U_ulLnnqC'' = Inr ex_coords"
  by (simp add: polyline_decode_def decode_loop.simps trans_def factor_def ex_coords_def)

theorem polyline_roundtrip_witness:
  "polyline_encode ex_coords = Inr ''_p~iF~ps|U_ulLnnqC''
   \<and> polyline_decode ''_p~iF~ps|U_ulLnnqC'' = Inr ex_coords
   \<and> 2 \<le> length ex_coords
   \<and> series_get ex_activity_row ''map'' (Dict [])
       = Dict [(''id'', Str ''a1''), (''summary_polyline'', Str ''_p~iF~ps|U_ulLnnqC'')]
   \<and> dict_get [(''id'', Str ''a1''), (''summary_polyline'', Str ''_p~iF~ps|U_ulLnnqC'')]
         ''summary_polyline'' = Str ''_p~iF~ps|U_ulLnnqC''
   \<and> decode_summary_polyline ex_activity_row
       = Inr (LineString [(- (601 / 5), 77 / 2), (- (2419 / 20), 407 / 10)])"
proof -
  have two: "2 \<le> length ex_coords"
    by (simp add: ex_coords_def)
  have m: "series_get ex_activity_row ''map'' (Dict [])
       = Dict [(''id'', Str ''a1''), (''summary_polyline'', Str ''_p~iF~ps|U_ulLnnqC'')]"
    by (simp add: series_get_def ex_activity_row_def act_with_map_def dict_get_def)
  have g: "dict_get [(''id'', Str ''a1''), (''summary_polyline'', Str ''_p~iF~ps|U_ulLnnqC'')]
         ''summary_polyline'' = Str ''_p~iF~ps|U_ulLnnqC''"
    by (simp add: dict_get_def)
  have swap: "map (\<lambda>(lat, lon). (lon, lat)) ex_coords
      = [(- (601 / 5), 77 / 2), (- (2419 / 20), 407 / 10)]"
    by (simp add: ex_coords_def)
  from polyline_roundtrip [OF ex_encode ex_decode two m g]
  have "decode_summary_polyline ex_activity_row
       = Inr (LineString [(- (601 / 5), 77 / 2), (- (2419 / 20), 407 / 10)])"
    by (simp only: swap)
  with ex_encode ex_decode two m g show ?thesis
    by blast
qed

text \<open>
  Validity matters. A string with a superfluous continuation chunk decodes to two
  points, but it is the encoding of no coordinate list, and encoding its points gives
  another string.
\<close>

lemma overlong_chunks_not_valid:
  "polyline_decode ''_?_?_?_?'' = Inr [(0, 0), (0, 0)]
   \<and> polyline_encode [(0, 0), (0, 0)] = Inr ''????''
   \<and> (\<forall>cs. polyline_encode cs \<noteq> Inr ''_?_?_?_?'')"
proof (intro conjI allI notI)
  show d: "polyline_decode ''_?_?_?_?'' = Inr [(0, 0), (0, 0)]"
    by (simp add: polyline_decode_def decode_loop.simps trans_def factor_def)
  show e: "polyline_encode [(0, 0), (0, 0)] = Inr ''????''"
    by (simp add: polyline_encode_def pairwise_list_def write_value_def
        py2_round_zero write_chunks.simps char_of_def)
  fix cs
  assume v: "polyline_encode cs = Inr ''_?_?_?_?''"
  from polyline_decode_encode [OF v] d have "map round5 cs = [(0, 0), (0, 0)]"
    by simp
  with polyline_encode_round5 [of cs] v e show False
    by simp
qed
section \<open>Whole runs\<close>

lemma files_print: "files (print line w) = files w"
  by (simp add: print_def)

lemma write_block_files:
  "files (write_block combined w)
    = (if len combined \<noteq> 0
       then (files w)(GEOJSON_PATH \<mapsto> Dataset combined,
                      shp_path \<mapsto> Dataset (shapefile_safe combined))
       else files w)"
  by (simp add: write_block_def print_def to_file_def Let_def)

lemma load_existing_geojson_print:
  "load_existing_geojson (print line w) path = load_existing_geojson w path"
  by (simp add: load_existing_geojson_def print_def)

text \<open>
  A run that returns without exception has built a dataset from the fetched rows and
  ends with the write block applied to its merge with the stored dataset.
\<close>

lemma main_returns:
  assumes "main L E R w = Some (None, w')"
  shows "\<exists>new_rows new_gdf.
      build_geodataframe L new_rows = Inr new_gdf
      \<and> files w' = files (write_block (merge_block (load_existing_geojson w GEOJSON_PATH) new_gdf) w)"
proof (cases "refresh_access_token E R")
  case (Inl e)
  with assms show ?thesis by (simp add: main_def)
next
  case (Inr t)
  obtain access_token new_refresh expires where t: "t = (access_token, new_refresh, expires)"
    by (cases t) auto
  let ?w1 = "if truthy new_refresh \<and> new_refresh \<noteq> REFRESH_TOKEN E then
      print ''[info] Strava issued a new refresh token this run. Store it in your GitHub Secrets if you want to rotate.'' w
    else w"
  let ?existing = "load_existing_geojson ?w1 GEOJSON_PATH"
  let ?after_ts = "compute_after_ts L ?existing"
  let ?w2 = "print (''[info] Incremental fetch using after='' @ str_after ?after_ts) ?w1"
  have ex: "?existing = load_existing_geojson w GEOJSON_PATH"
    by (simp add: load_existing_geojson_print)
  have f2: "files ?w2 = files w"
    by (simp add: files_print)
  from assms Inr t obtain new_rows
    where fetch: "fetch_pages R access_token ?after_ts 1 [] = Some (Inr new_rows)"
    by (auto simp: main_def Let_def split: option.splits sum.splits)
  let ?w3 = "print (''[info] fetched '' @ str_nat (length new_rows)
      @ '' activities (raw) this run'') ?w2"
  from assms Inr t fetch obtain new_gdf
    where build: "build_geodataframe L new_rows = Inr new_gdf"
      and w': "w' = write_block (merge_block ?existing new_gdf) ?w3"
    by (auto simp: main_def Let_def split: sum.splits)
  have "files w' = files (write_block (merge_block ?existing new_gdf) w)"
    unfolding w' by (simp add: write_block_files files_print)
  with build ex show ?thesis by auto
qed

text \<open>
  A run touches no path but the two output paths, and writes them only together and
  only with a non-empty dataset; a run that an exception ends writes nothing.
\<close>

lemma main_files:
  assumes "main L E R w = Some (outcome, w')"
  shows "files w' = files w
    \<or> (outcome = None \<and> (\<exists>combined. len combined \<noteq> 0
          \<and> files w' = (files w)(GEOJSON_PATH \<mapsto> Dataset combined,
                                   shp_path \<mapsto> Dataset (shapefile_safe combined))))"
proof (cases outcome)
  case None
  with assms main_returns [of L E R w w'] obtain new_gdf
    where "files w' = files (write_block (merge_block (load_existing_geojson w GEOJSON_PATH) new_gdf) w)"
    by blast
  with None show ?thesis
    by (auto simp: write_block_files split: if_splits)
next
  case (Some e)
  with assms have "files w' = files w"
    by (auto simp: main_def Let_def files_print split: sum.splits option.splits prod.splits if_splits)
  then show ?thesis ..
qed

text \<open>
  No deletion over a whole run: after a run that returns, the id of every record that
  was stored in a dataset with an id column is in the dataset on disk.
\<close>

lemma main_keeps_stored_ids:
  assumes "files w GEOJSON_PATH = Some (Dataset existing)"
    and "''id'' \<in> set (columns existing)" and "r \<in> set (rows existing)"
    and "main L E R w = Some (None, w')"
  shows "\<exists>out. files w' GEOJSON_PATH = Some (Dataset out) \<and> r ''id'' \<in> set (ids out)"
proof -
  from assms(1) have ex: "load_existing_geojson w GEOJSON_PATH = existing"
    by (simp add: load_existing_geojson_def read_file_def)
  from main_returns [OF assms(4)] ex obtain new_gdf
    where f: "files w' = files (write_block (merge_block existing new_gdf) w)"
    by auto
  from assms(3) have ne: "len existing \<noteq> 0"
    by (auto simp: len_def)
  have i: "set (ids (merge_block existing new_gdf))
      = (\<lambda>r. r ''id'') ` set (rows existing @ rows new_gdf)"
    using ne assms(2) by (simp add: ids_def merge_block_with_id drop_duplicates_last_keys)
  with assms(3) have mem: "r ''id'' \<in> set (ids (merge_block existing new_gdf))"
    by auto
  then have "len (merge_block existing new_gdf) \<noteq> 0"
    by (auto simp: ids_def len_def)
  with f paths_differ have "files w' GEOJSON_PATH = Some (Dataset (merge_block existing new_gdf))"
    by (simp add: write_block_files)
  with mem show ?thesis by blast
qed

text \<open>
  A first synchronisation in which the one fetched page lists the same activity twice:
  the run writes a dataset with two records of the same id.
\<close>

lemma first_sync_example:
  "\<exists>w' out. main example_libs ex_env ex_remote_one_page ex_world_fresh = Some (None, w')
     \<and> files w' GEOJSON_PATH = Some (Dataset out)
     \<and> ids out = [Num 1, Num 1]
     \<and> stdout w' =
         [''[info] Incremental fetch using after=None'',
          ''[info] fetched 2 activities (raw) this run'',
          ''[ok] wrote docs/data/activities.geojson'',
          ''[ok] wrote docs/data/shapefile/activities.shp (and companion files)'']"
proof -
  have tok: "refresh_access_token ex_env ex_remote_one_page = Inr (Str ''a'', Str ''r'', Num 0)"
    by (simp add: refresh_access_token_def ex_env_def ex_remote_one_page_def)
  have ex: "load_existing_geojson ex_world_fresh GEOJSON_PATH = empty_gdf"
    by (simp add: load_existing_geojson_def ex_world_fresh_def)
  have after: "compute_after_ts example_libs empty_gdf = None"
    by (simp add: compute_after_ts_def empty_gdf_def len_def)
  have fetch: "fetch_pages ex_remote_one_page (Str ''a'') None (Suc 0) [] = Some (Inr [act_with_map, act_with_map])"
    by (subst fetch_pages.simps)
      (simp add: strava_get_activities_def ex_remote_one_page_def PER_PAGE_def act_with_map_def)
  obtain gdf where build: "build_geodataframe example_libs [act_with_map, act_with_map] = Inr gdf"
    and gids: "ids gdf = [Num 1, Num 1]"
    by (simp add: build_geodataframe_def DataFrame_def tidy_columns_def select_def wanted_def
      expand_dates_def set_column_def column_def dumps_column_def len_def dict_get_def
      example_libs_def example_to_datetime_def dt_date_astype_str_def missing_as_str_def dt_year_def
      dt_month_def Let_def act_with_map_def apply_rows_def drop_column_def ids_def
      decode_summary_polyline_def series_get_def polyline_decode_def decode_loop.simps
      trans_def factor_def)
  from gids have ne: "len gdf \<noteq> 0"
    by (auto simp: ids_def len_def)
  have m: "merge_block empty_gdf gdf = gdf"
    by (simp add: merge_block_def empty_gdf_def len_def)
  have n2: "str_nat (Suc (Suc 0)) = ''2''"
    by (subst str_nat.simps) (simp add: char_of_def bit_0)
  have rt: "REFRESH_TOKEN ex_env = Str ''r''"
    by (simp add: ex_env_def)
  have run: "main example_libs ex_env ex_remote_one_page ex_world_fresh
      = Some (None, write_block gdf
          (print ''[info] fetched 2 activities (raw) this run''
            (print ''[info] Incremental fetch using after=None'' ex_world_fresh)))"
    by (simp add: main_def tok rt ex after fetch build m Let_def str_after_def n2)
  show ?thesis
    unfolding run using ne gids
    by (simp add: write_block_def print_def to_file_def ex_world_fresh_def GEOJSON_PATH_def
        shp_path_def DATA_DIR_def SHAPE_DIR_def SHAPE_BASENAME_def Let_def)
qed

text \<open>
  Scenarios C and D of the specification in one run. Nothing is stored, so the cutoff
  is unset; the first page is full, the second is short and ends the fetch; no fetched
  activity has a geometry, so the combined dataset is empty, no file is written and
  the last line printed is the informational one.
\<close>

lemma scenario_C_D:
  "\<exists>w'. main example_libs ex_env ex_remote ex_world_fresh = Some (None, w')
     \<and> files w' = files ex_world_fresh
     \<and> stdout w' =
         [''[info] Incremental fetch using after=None'',
          ''[info] fetched 201 activities (raw) this run'',
          ''[info] nothing to update'']"
proof -
  let ?rows = "replicate 200 [(''id'', Num 1)] @ [[(''id'', Num 2)]] :: activity list"
  have tok: "refresh_access_token ex_env ex_remote = Inr (Str ''a'', Str ''r'', Num 0)"
    by (simp add: refresh_access_token_def ex_env_def ex_remote_def)
  have rt: "REFRESH_TOKEN ex_env = Str ''r''"
    by (simp add: ex_env_def)
  have ex: "load_existing_geojson ex_world_fresh GEOJSON_PATH = empty_gdf"
    by (simp add: load_existing_geojson_def ex_world_fresh_def)
  have after: "compute_after_ts example_libs empty_gdf = None"
    by (simp add: compute_after_ts_def empty_gdf_def len_def)
  have s1: "strava_get_activities ex_remote (Str ''a'') (Suc 0) PER_PAGE None
      = Inr (replicate 200 [(''id'', Num 1)])"
    by (simp add: strava_get_activities_def ex_remote_def)
  have s2: "strava_get_activities ex_remote (Str ''a'') (Suc (Suc 0)) PER_PAGE None
      = Inr [[(''id'', Num 2)]]"
    by (simp add: strava_get_activities_def ex_remote_def)
  have short: "Suc 0 < PER_PAGE" and full: "\<not> 200 < PER_PAGE"
    by (simp_all add: PER_PAGE_def)
  have p2: "fetch_pages ex_remote (Str ''a'') None (Suc (Suc 0)) (replicate 200 [(''id'', Num 1)])
      = Some (Inr ?rows)"
    by (subst fetch_pages.simps) (simp add: s2 short)
  have fetch: "fetch_pages ex_remote (Str ''a'') None (Suc 0) [] = Some (Inr ?rows)"
    by (subst fetch_pages.simps) (simp add: s1 p2 full)
  have "\<forall>a \<in> set ?rows. ''map'' \<notin> fst ` set a"
    by simp
  from build_geodataframe_no_map_column [OF this, of example_libs] obtain gdf
    where build: "build_geodataframe example_libs ?rows = Inr gdf" and none: "rows gdf = []"
    by blast
  from none have m: "merge_block empty_gdf gdf = gdf" "len gdf = 0"
    by (simp_all add: merge_block_def empty_gdf_def len_def)
  have n: "str_nat 201 = ''201''"
    by (simp add: str_nat.simps [of 201] str_nat.simps [of 20] str_nat.simps [of 2]
        char_of_def bit_0)
  have run: "main example_libs ex_env ex_remote ex_world_fresh
      = Some (None, write_block gdf
          (print ''[info] fetched 201 activities (raw) this run''
            (print ''[info] Incremental fetch using after=None'' ex_world_fresh)))"
    by (simp add: main_def tok rt ex after fetch build m Let_def str_after_def n)
  show ?thesis
    unfolding run using m(2)
    by (simp add: write_block_def print_def ex_world_fresh_def)
qed


end
